theory Spec2Isabelle
  imports Complex_Main "HOL-Library.Word"
begin

section \<open>Floating-point scalars\<close>

text \<open>
  The helpers of \<^verbatim>\<open>include/gf/Math.h\<close> are templates over a scalar type, in practice
  \<^verbatim>\<open>float\<close> or \<^verbatim>\<open>double\<close>. A binary floating-point value is a NaN, a signed infinity or
  a finite number, kept here as a sign (\<open>True\<close> for negative) and a magnitude, so that the
  two zeros are different values. The two type arguments are the widths of the exponent
  and of the fraction field: \<open>(8, 23) ieee\<close> is \<^verbatim>\<open>float\<close>, \<open>(11, 52) ieee\<close> is \<^verbatim>\<open>double\<close>.
\<close>

datatype ('e, 'f) ieee = NaN | Infinity bool | Finite bool real

type_synonym float32 = "(8, 23) ieee"
type_synonym float64 = "(11, 52) ieee"

definition precision :: "('e::len, 'f::len) ieee itself \<Rightarrow> int" where
  "precision _ = int LENGTH('f) + 1"

definition emax :: "('e::len, 'f::len) ieee itself \<Rightarrow> int" where
  "emax _ = 2 ^ (LENGTH('e) - 1) - 1"

subsection \<open>Rounding to nearest, ties to even\<close>

text \<open>\<open>log2_int n\<close> is the position of the leading bit of \<open>n \<ge> 1\<close>.\<close>

function log2_int :: "int \<Rightarrow> int" where
  "log2_int n = (if n < 2 then 0 else log2_int (n div 2) + 1)"
  by pat_completeness auto
termination
  by (relation "measure nat") auto

declare log2_int.simps [simp del]

text \<open>The binary exponent of a positive number: \<open>2 powi ilog2 q \<le> q < 2 powi (ilog2 q + 1)\<close>.\<close>

definition ilog2 :: "real \<Rightarrow> int" where
  "ilog2 q = (if 1 \<le> q then log2_int \<lfloor>q\<rfloor> else - (log2_int (\<lceil>1 / q\<rceil> - 1) + 1))"

definition round_even :: "real \<Rightarrow> int" where
  "round_even x = (let f = \<lfloor>x\<rfloor>; d = x - of_int f in
     if d < 1 / 2 then f else if 1 / 2 < d then f + 1 else if even f then f else f + 1)"

text \<open>
  \<open>round_to s q\<close> is the value of the format nearest to the magnitude \<open>q\<close>, with sign \<open>s\<close>:
  the magnitude is cut to \<open>precision\<close> bits at its own exponent, or at the least exponent
  of the format when it is smaller (gradual underflow), and what would need an exponent
  above \<open>emax\<close> becomes an infinity.
\<close>

definition round_to :: "bool \<Rightarrow> real \<Rightarrow> ('e::len, 'f::len) ieee" where
  "round_to s q = (if q = 0 then Finite s 0 else
     let p = precision TYPE(('e, 'f) ieee); em = emax TYPE(('e, 'f) ieee);
         e = max (ilog2 q) (1 - em) - (p - 1);
         r = of_int (round_even (q / 2 powi e)) * 2 powi e
     in if 2 powi (em + 1) \<le> r then Infinity s else Finite s r)"

text \<open>The conversion \<^verbatim>\<open>T(c)\<close> of a literal \<open>c\<close> to the floating-point type.\<close>

definition ieee_of_rat :: "rat \<Rightarrow> ('e::len, 'f::len) ieee" where
  "ieee_of_rat q = round_to (q < 0) \<bar>of_rat q\<bar>"

text \<open>
  The values a variable of the type can hold: NaN, the infinities, and the finite numbers
  that rounding to the format leaves as they are.
\<close>

fun is_float :: "('e::len, 'f::len) ieee \<Rightarrow> bool" where
  "is_float (Finite s x) = (0 \<le> x \<and> (round_to s x :: ('e, 'f) ieee) = Finite s x)"
| "is_float a = True"

fun is_finite :: "('e, 'f) ieee \<Rightarrow> bool" where
  "is_finite (Finite s x) = True"
| "is_finite a = False"

definition is_zero :: "('e, 'f) ieee \<Rightarrow> bool" where
  "is_zero a = (case a of Finite s x \<Rightarrow> x = 0 | _ \<Rightarrow> False)"

subsection \<open>Arithmetic and comparisons\<close>

definition sval :: "bool \<Rightarrow> real \<Rightarrow> real" where
  "sval s x = (if s then - x else x)"

text \<open>The number a finite value stands for.\<close>

fun valof :: "('e, 'f) ieee \<Rightarrow> real" where
  "valof (Finite s x) = sval s x"
| "valof a = 0"

fun float_neg :: "('e, 'f) ieee \<Rightarrow> ('e, 'f) ieee" where
  "float_neg NaN = NaN"
| "float_neg (Infinity s) = Infinity (\<not> s)"
| "float_neg (Finite s x) = Finite (\<not> s) x"

fun float_abs :: "('e, 'f) ieee \<Rightarrow> ('e, 'f) ieee" where
  "float_abs NaN = NaN"
| "float_abs (Infinity s) = Infinity False"
| "float_abs (Finite s x) = Finite False x"

text \<open>An exact zero sum is \<open>-0\<close> only when both operands are \<open>-0\<close>.\<close>

fun float_add :: "('e::len, 'f::len) ieee \<Rightarrow> ('e, 'f) ieee \<Rightarrow> ('e, 'f) ieee" where
  "float_add NaN b = NaN"
| "float_add a NaN = NaN"
| "float_add (Infinity s) (Infinity s') = (if s = s' then Infinity s else NaN)"
| "float_add (Infinity s) (Finite s' y) = Infinity s"
| "float_add (Finite s x) (Infinity s') = Infinity s'"
| "float_add (Finite s x) (Finite s' y) =
     (let r = sval s x + sval s' y in
      if r = 0 then Finite (s \<and> s') 0 else round_to (r < 0) \<bar>r\<bar>)"

fun float_mul :: "('e::len, 'f::len) ieee \<Rightarrow> ('e, 'f) ieee \<Rightarrow> ('e, 'f) ieee" where
  "float_mul NaN b = NaN"
| "float_mul a NaN = NaN"
| "float_mul (Infinity s) (Infinity s') = Infinity (s \<noteq> s')"
| "float_mul (Infinity s) (Finite s' y) = (if y = 0 then NaN else Infinity (s \<noteq> s'))"
| "float_mul (Finite s x) (Infinity s') = (if x = 0 then NaN else Infinity (s \<noteq> s'))"
| "float_mul (Finite s x) (Finite s' y) = round_to (s \<noteq> s') (x * y)"

fun float_div :: "('e::len, 'f::len) ieee \<Rightarrow> ('e, 'f) ieee \<Rightarrow> ('e, 'f) ieee" where
  "float_div NaN b = NaN"
| "float_div a NaN = NaN"
| "float_div (Infinity s) (Infinity s') = NaN"
| "float_div (Infinity s) (Finite s' y) = Infinity (s \<noteq> s')"
| "float_div (Finite s x) (Infinity s') = Finite (s \<noteq> s') 0"
| "float_div (Finite s x) (Finite s' y) =
     (if y = 0 then (if x = 0 then NaN else Infinity (s \<noteq> s'))
      else round_to (s \<noteq> s') (x / y))"

text \<open>Every comparison with a NaN is false; the two zeros compare equal.\<close>

fun float_lt :: "('e, 'f) ieee \<Rightarrow> ('e, 'f) ieee \<Rightarrow> bool" where
  "float_lt NaN b = False"
| "float_lt a NaN = False"
| "float_lt (Infinity s) (Infinity s') = (s \<and> \<not> s')"
| "float_lt (Infinity s) (Finite s' y) = s"
| "float_lt (Finite s x) (Infinity s') = (\<not> s')"
| "float_lt (Finite s x) (Finite s' y) = (sval s x < sval s' y)"

fun float_le :: "('e, 'f) ieee \<Rightarrow> ('e, 'f) ieee \<Rightarrow> bool" where
  "float_le NaN b = False"
| "float_le a NaN = False"
| "float_le (Infinity s) (Infinity s') = (s \<or> \<not> s')"
| "float_le (Infinity s) (Finite s' y) = s"
| "float_le (Finite s x) (Infinity s') = (\<not> s')"
| "float_le (Finite s x) (Finite s' y) = (sval s x \<le> sval s' y)"

text \<open>The operator \<^verbatim>\<open>==\<close> of the scalar type.\<close>

fun float_eq :: "('e, 'f) ieee \<Rightarrow> ('e, 'f) ieee \<Rightarrow> bool" where
  "float_eq NaN b = False"
| "float_eq a NaN = False"
| "float_eq (Infinity s) (Infinity s') = (s = s')"
| "float_eq (Infinity s) (Finite s' y) = False"
| "float_eq (Finite s x) (Infinity s') = False"
| "float_eq (Finite s x) (Finite s' y) = (sval s x = sval s' y)"

text \<open>
  The operators of the scalar type, so that the body of a template reads the same for
  every instance. Subtraction is the addition of the negated operand.
\<close>

instantiation ieee :: (len, len) "{zero,one,plus,minus,uminus,times,inverse,abs,ord}"
begin

definition zero_ieee :: "('a, 'b) ieee" where
  "zero_ieee = Finite False 0"

definition one_ieee :: "('a, 'b) ieee" where
  "one_ieee = Finite False 1"

definition plus_ieee :: "('a, 'b) ieee \<Rightarrow> ('a, 'b) ieee \<Rightarrow> ('a, 'b) ieee" where
  "plus_ieee a b = float_add a b"

definition minus_ieee :: "('a, 'b) ieee \<Rightarrow> ('a, 'b) ieee \<Rightarrow> ('a, 'b) ieee" where
  "minus_ieee a b = float_add a (float_neg b)"

definition uminus_ieee :: "('a, 'b) ieee \<Rightarrow> ('a, 'b) ieee" where
  "uminus_ieee a = float_neg a"

definition times_ieee :: "('a, 'b) ieee \<Rightarrow> ('a, 'b) ieee \<Rightarrow> ('a, 'b) ieee" where
  "times_ieee a b = float_mul a b"

definition divide_ieee :: "('a, 'b) ieee \<Rightarrow> ('a, 'b) ieee \<Rightarrow> ('a, 'b) ieee" where
  "divide_ieee a b = float_div a b"

definition inverse_ieee :: "('a, 'b) ieee \<Rightarrow> ('a, 'b) ieee" where
  "inverse_ieee a = float_div (Finite False 1) a"

definition abs_ieee :: "('a, 'b) ieee \<Rightarrow> ('a, 'b) ieee" where
  "abs_ieee a = float_abs a"

definition less_ieee :: "('a, 'b) ieee \<Rightarrow> ('a, 'b) ieee \<Rightarrow> bool" where
  "less_ieee a b = float_lt a b"

definition less_eq_ieee :: "('a, 'b) ieee \<Rightarrow> ('a, 'b) ieee \<Rightarrow> bool" where
  "less_eq_ieee a b = float_le a b"

instance ..

end

subsection \<open>The constants of \<^verbatim>\<open>std::numeric_limits\<close>\<close>

text \<open>
  For \<^verbatim>\<open>float\<close> these are \<open>2\<^sup>-\<^sup>2\<^sup>3\<close>, \<open>2\<^sup>-\<^sup>1\<^sup>4\<^sup>9\<close> and \<open>(2 - 2\<^sup>-\<^sup>2\<^sup>3) \<sqdot> 2\<^sup>1\<^sup>2\<^sup>7\<close>.
\<close>

definition limits_epsilon :: "('e::len, 'f::len) ieee" where
  "limits_epsilon = Finite False (2 powi (1 - precision TYPE(('e, 'f) ieee)))"

definition limits_denorm_min :: "('e::len, 'f::len) ieee" where
  "limits_denorm_min =
     Finite False (2 powi (2 - emax TYPE(('e, 'f) ieee) - precision TYPE(('e, 'f) ieee)))"

definition limits_max :: "('e::len, 'f::len) ieee" where
  "limits_max =
     Finite False ((2 - 2 powi (1 - precision TYPE(('e, 'f) ieee)))
                   * 2 powi emax TYPE(('e, 'f) ieee))"

section \<open>Signed integer scalars\<close>

text \<open>
  The templates are also instantiated with \<^verbatim>\<open>int\<close>. An operation on two \<^verbatim>\<open>int\<close> whose
  result does not fit in 32 bits has undefined behaviour: the model gives it the value
  \<open>Undefined\<close>, which every later operation hands on.
\<close>

datatype int32 = Int32 int | Undefined

definition checked :: "int \<Rightarrow> int32" where
  "checked n = (if - 2147483648 \<le> n \<and> n \<le> 2147483647 then Int32 n else Undefined)"

fun int32_op :: "(int \<Rightarrow> int \<Rightarrow> int) \<Rightarrow> int32 \<Rightarrow> int32 \<Rightarrow> int32" where
  "int32_op f (Int32 a) (Int32 b) = checked (f a b)"
| "int32_op f a b = Undefined"

fun int32_lt :: "int32 \<Rightarrow> int32 \<Rightarrow> bool" where
  "int32_lt (Int32 a) (Int32 b) = (a < b)"
| "int32_lt a b = False"

fun int32_le :: "int32 \<Rightarrow> int32 \<Rightarrow> bool" where
  "int32_le (Int32 a) (Int32 b) = (a \<le> b)"
| "int32_le a b = False"

text \<open>The values an \<^verbatim>\<open>int\<close> variable can hold.\<close>

fun is_int32 :: "int32 \<Rightarrow> bool" where
  "is_int32 (Int32 n) = (- 2147483648 \<le> n \<and> n \<le> 2147483647)"
| "is_int32 Undefined = False"

instantiation int32 :: "{zero,one,plus,minus,uminus,times,ord}"
begin

definition zero_int32 :: int32 where
  "zero_int32 = Int32 0"

definition one_int32 :: int32 where
  "one_int32 = Int32 1"

definition plus_int32 :: "int32 \<Rightarrow> int32 \<Rightarrow> int32" where
  "plus_int32 a b = int32_op (+) a b"

definition minus_int32 :: "int32 \<Rightarrow> int32 \<Rightarrow> int32" where
  "minus_int32 a b = int32_op (-) a b"

definition uminus_int32 :: "int32 \<Rightarrow> int32" where
  "uminus_int32 a = int32_op (-) (Int32 0) a"

definition times_int32 :: "int32 \<Rightarrow> int32 \<Rightarrow> int32" where
  "times_int32 a b = int32_op (*) a b"

definition less_int32 :: "int32 \<Rightarrow> int32 \<Rightarrow> bool" where
  "less_int32 a b = int32_lt a b"

definition less_eq_int32 :: "int32 \<Rightarrow> int32 \<Rightarrow> bool" where
  "less_eq_int32 a b = int32_le a b"

instance ..

end

text \<open>
  The conversions between \<^verbatim>\<open>int\<close> and a floating-point type: an \<^verbatim>\<open>int\<close> is rounded to the
  format; a floating-point number is truncated towards zero, and the conversion is
  undefined for a NaN, an infinity or a number whose integer part does not fit.
\<close>

fun float_of_int32 :: "int32 \<Rightarrow> ('e::len, 'f::len) ieee" where
  "float_of_int32 (Int32 n) = ieee_of_rat (of_int n)"
| "float_of_int32 Undefined = NaN"

fun int32_of_float :: "('e, 'f) ieee \<Rightarrow> int32" where
  "int32_of_float (Finite s v) = checked (if s then - \<lfloor>v\<rfloor> else \<lfloor>v\<rfloor>)"
| "int32_of_float a = Undefined"

section \<open>The scalar helpers of \<^verbatim>\<open>include/gf/Math.h\<close>\<close>

text \<open>
  A template becomes a polymorphic function over the operators its body uses. Where the
  body converts a literal to the scalar type, as in \<^verbatim>\<open>T(2)\<close>, the conversion is the first
  argument \<open>T\<close> of the model: \<open>of_rat\<close> for exact arithmetic, \<open>ieee_of_rat\<close> for a
  floating-point type. The literals \<^verbatim>\<open>T(0)\<close> and \<^verbatim>\<open>U(1)\<close> are the \<open>0\<close> and \<open>1\<close> of the type.
\<close>

definition gf_pi :: "(rat \<Rightarrow> 'a) \<Rightarrow> 'a" where
  "gf_pi T = T (3141592653589793238462643383279502884197169399 / 10 ^ 45)"

text \<open>
  \<^verbatim>\<open>almostEquals\<close> reads \<^verbatim>\<open>std::numeric_limits<T>\<close> and is meant for floating-point types
  only; \<^verbatim>\<open>a == 0\<close> compares with the zero of the type.
\<close>

definition almostEquals ::
    "('e::len, 'f::len) ieee \<Rightarrow> ('e, 'f) ieee \<Rightarrow> ('e, 'f) ieee \<Rightarrow> bool" where
  "almostEquals a b epsilon =
     (if float_eq a b then True
      else let diff = \<bar>a - b\<bar> in
        if float_eq a 0 \<or> float_eq b 0 \<or> diff < limits_denorm_min
        then diff < epsilon * limits_denorm_min
        else let sum = \<bar>a\<bar> + \<bar>b\<bar>;
                 sum = (if sum < limits_max then sum else limits_max)
             in diff / sum < epsilon)"

definition degreesToRadians :: "(rat \<Rightarrow> 'a) \<Rightarrow> 'a::{times,inverse} \<Rightarrow> 'a" where
  "degreesToRadians T degrees = degrees * gf_pi T / T 180"

definition radiansToDegrees :: "(rat \<Rightarrow> 'a) \<Rightarrow> 'a::{times,inverse} \<Rightarrow> 'a" where
  "radiansToDegrees T radians = radians * T 180 / gf_pi T"

definition linearStep :: "'a \<Rightarrow> 'a" where
  "linearStep t = t"

definition cubicStep :: "(rat \<Rightarrow> 'a) \<Rightarrow> 'a::{uminus,plus,times} \<Rightarrow> 'a" where
  "cubicStep T t = (- T 2 * t + T 3) * t * t"

definition quinticStep :: "(rat \<Rightarrow> 'a) \<Rightarrow> 'a::{minus,plus,times} \<Rightarrow> 'a" where
  "quinticStep T t = ((T 6 * t - T 15) * t + T 10) * t * t * t"

text \<open>\<^verbatim>\<open>std::cos\<close> belongs to the C library: it is the argument \<open>std_cos\<close>.\<close>

definition cosineStep :: "(rat \<Rightarrow> 'a) \<Rightarrow> ('a \<Rightarrow> 'a) \<Rightarrow> 'a::{minus,times} \<Rightarrow> 'a" where
  "cosineStep T std_cos t = (T 1 - std_cos (gf_pi T * t)) * T (1 / 2)"

text \<open>
  The language does not fix the accuracy of \<^verbatim>\<open>std::cos\<close>. \<open>float_cos\<close> is the correctly rounded
  cosine, the value of the format nearest to the cosine of the argument: an idealisation,
  from which a C library may differ by a unit in the last place. What is proved below
  depends on its value only at a NaN and at an infinity, where the cosine is a NaN, and at
  the arguments \<open>0\<close> and \<open>pi<float>()\<close>, where the cosine is \<open>1\<close> and within \<open>10\<^sup>-\<^sup>8\<close> of \<open>-1\<close>,
  so that its nearest \<^verbatim>\<open>float\<close> is \<open>-1\<close>.
\<close>

definition float_cos :: "('e::len, 'f::len) ieee \<Rightarrow> ('e, 'f) ieee" where
  "float_cos x = (case x of
      Finite s v \<Rightarrow> (let c = cos (sval s v) in round_to (c < 0) \<bar>c\<bar>)
    | _ \<Rightarrow> NaN)"

text \<open>
  \<^verbatim>\<open>lerp\<close> has two type parameters, \<^verbatim>\<open>T\<close> for the values and \<^verbatim>\<open>U\<close> for the parameter \<open>t\<close>.
  The products \<^verbatim>\<open>(U(1) - t) * lhs\<close> and \<^verbatim>\<open>t * rhs\<close> are computed in the common type of \<^verbatim>\<open>U\<close>
  and \<^verbatim>\<open>T\<close>, to which the language converts both operands, and the sum is converted to
  \<^verbatim>\<open>T\<close>. The three conversions are the first arguments of the model: from \<^verbatim>\<open>U\<close> and from
  \<^verbatim>\<open>T\<close> to the common type, and from the common type to \<^verbatim>\<open>T\<close>. Each is \<open>id\<close> when \<^verbatim>\<open>T\<close>
  and \<^verbatim>\<open>U\<close> are the same type; for \<^verbatim>\<open>lerp<int, float>\<close> they are \<open>id\<close>, \<open>float_of_int32\<close>
  and \<open>int32_of_float\<close>.
\<close>

definition lerp ::
    "('u \<Rightarrow> 'c) \<Rightarrow> ('t \<Rightarrow> 'c) \<Rightarrow> ('c::{plus,times} \<Rightarrow> 't) \<Rightarrow> 't \<Rightarrow> 't \<Rightarrow> 'u::{one,minus} \<Rightarrow> 't" where
  "lerp from_U from_T T lhs rhs t = T (from_U (1 - t) * from_T lhs + from_U t * from_T rhs)"

definition clamp :: "'a::ord \<Rightarrow> 'a \<Rightarrow> 'a \<Rightarrow> 'a" where
  "clamp val lo hi = (if val < lo then lo else (if val > hi then hi else val))"



text \<open>A comparison converts to the \<^verbatim>\<open>int\<close> 1 when it holds and to 0 when it does not.\<close>

definition sign :: "'a::{zero,ord} \<Rightarrow> int" where
  "sign val = (if val > 0 then 1 else 0) - (if val < 0 then 1 else 0)"

definition absdiff :: "'a::{ord,minus} \<Rightarrow> 'a \<Rightarrow> 'a" where
  "absdiff lhs rhs = (if lhs > rhs then lhs - rhs else rhs - lhs)"

section \<open>The queries of \<^verbatim>\<open>library/graphics/SystemInfo.cc\<close>\<close>

text \<open>
  The four functions call into SDL, which is not part of the repository. The state
  \<open>system\<close> holds what the platform would answer at the moment of a call, and the calls made
  so far. Each SDL function reads its answer and records the call. A platform name is the
  list of the characters of the C string, which is also the \<^verbatim>\<open>std::string\<close> built from it.
\<close>

datatype sdl_call = GetPlatform | GetCPUCacheLineSize | GetCPUCount | GetSystemRAM

record system =
  platform :: string
  cache_line_size :: int
  cpu_count :: int
  system_ram :: int
  calls :: "sdl_call list"

definition SDL_GetPlatform :: "system \<Rightarrow> string \<times> system" where
  "SDL_GetPlatform w = (platform w, w\<lparr>calls := calls w @ [GetPlatform]\<rparr>)"

definition SDL_GetCPUCacheLineSize :: "system \<Rightarrow> int \<times> system" where
  "SDL_GetCPUCacheLineSize w = (cache_line_size w, w\<lparr>calls := calls w @ [GetCPUCacheLineSize]\<rparr>)"

definition SDL_GetCPUCount :: "system \<Rightarrow> int \<times> system" where
  "SDL_GetCPUCount w = (cpu_count w, w\<lparr>calls := calls w @ [GetCPUCount]\<rparr>)"

definition SDL_GetSystemRAM :: "system \<Rightarrow> int \<times> system" where
  "SDL_GetSystemRAM w = (system_ram w, w\<lparr>calls := calls w @ [GetSystemRAM]\<rparr>)"

text \<open>The functions of the repository: each body is one call, and its result is returned.\<close>

definition getPlatformName :: "system \<Rightarrow> string \<times> system" where
  "getPlatformName w = SDL_GetPlatform w"

definition getCpuCacheLineSize :: "system \<Rightarrow> int \<times> system" where
  "getCpuCacheLineSize w = SDL_GetCPUCacheLineSize w"

definition getCpuCount :: "system \<Rightarrow> int \<times> system" where
  "getCpuCount w = SDL_GetCPUCount w"

definition getSystemRamSize :: "system \<Rightarrow> int \<times> system" where
  "getSystemRamSize w = SDL_GetSystemRAM w"

section \<open>Facts about the floating-point model\<close>

lemmas ieee_ops = zero_ieee_def one_ieee_def plus_ieee_def minus_ieee_def uminus_ieee_def
  times_ieee_def divide_ieee_def abs_ieee_def less_ieee_def less_eq_ieee_def

text \<open>Rules that let the simplifier compute with concrete numbers of a format.\<close>

lemma log2_int_numeral [simp]:
  "log2_int 0 = 0" "log2_int 1 = 0"
  "log2_int (numeral (Num.Bit0 n)) = log2_int (numeral n) + 1"
  "log2_int (numeral (Num.Bit1 n)) = log2_int (numeral n) + 1"
  by (subst log2_int.simps, simp)+

lemmas float_eval = ieee_of_rat_def round_to_def precision_def emax_def ilog2_def round_even_def
  Let_def sval_def limits_epsilon_def limits_denorm_min_def limits_max_def is_zero_def
  of_rat_divide of_rat_add of_rat_diff of_rat_mult of_rat_power of_rat_minus

lemma sval_not [simp]: "sval (\<not> s) w = - sval s w"
  by (simp add: sval_def)

lemma sval_zero [simp]: "sval s 0 = 0"
  by (simp add: sval_def)

lemma float_nan_right [simp]:
  "float_add a NaN = NaN" "float_lt a NaN = False" "float_le a NaN = False"
  "float_eq a NaN = False" "float_mul a NaN = NaN" "float_div a NaN = NaN"
  by (cases a; simp)+

lemma float_eq_refl: "x \<noteq> NaN \<Longrightarrow> float_eq x x"
  by (cases x) simp_all

lemma float_eq_zero: "float_eq a 0 = is_zero a"
  by (cases a) (auto simp: is_zero_def ieee_ops sval_def)

lemma float_le_not_nan: "float_le l h \<Longrightarrow> l \<noteq> NaN \<and> h \<noteq> NaN"
  by (cases l; cases h) simp_all

lemma float_le_refl: "x \<noteq> NaN \<Longrightarrow> float_le x x"
  by (cases x) simp_all

lemma float_not_lt_le:
  "x \<noteq> NaN \<Longrightarrow> l \<noteq> NaN \<Longrightarrow> \<not> float_lt x l \<Longrightarrow> float_le l x"
  by (cases x; cases l) auto

lemma float_lt_le_trans: "float_lt h x \<Longrightarrow> float_le l h \<Longrightarrow> \<not> float_lt x l"
  by (cases x; cases l; cases h) auto

subsection \<open>Rounding\<close>

lemma round_to_not_nan [simp]: "round_to s q \<noteq> NaN"
  by (simp add: round_to_def Let_def)

lemma float_abs_round_to: "float_abs (round_to s q) = round_to False q"
  by (simp add: round_to_def Let_def)

lemma round_even_nonneg: "0 \<le> x \<Longrightarrow> 0 \<le> round_even x"
  by (auto simp: round_even_def Let_def)

lemma round_even_of_int: "round_even (of_int k) = k"
  by (simp add: round_even_def)

lemma round_even_near: "\<bar>real_of_int (round_even x) - x\<bar> \<le> 1 / 2"
  unfolding round_even_def Let_def by (auto simp: abs_le_iff; linarith)

text \<open>The exponent function is the binary logarithm, rounded down.\<close>

lemma log2_int_bounds:
  "1 \<le> n \<Longrightarrow> 0 \<le> log2_int n \<and> 2 ^ nat (log2_int n) \<le> n \<and> n < 2 ^ nat (log2_int n + 1)"
proof (induction n rule: log2_int.induct)
  case (1 n)
  show ?case
  proof (cases "n < 2")
    case True
    with "1.prems" have "n = 1" by simp
    then show ?thesis by (simp add: log2_int.simps)
  next
    case False
    then have h: "1 \<le> n div 2" by simp
    from "1.IH" [OF False h] have ih: "0 \<le> log2_int (n div 2)"
      "2 ^ nat (log2_int (n div 2)) \<le> n div 2" "n div 2 < 2 ^ nat (log2_int (n div 2) + 1)"
      by simp_all
    have eq: "log2_int n = log2_int (n div 2) + 1"
      using False by (subst log2_int.simps) simp
    have s: "nat (log2_int (n div 2) + 1) = Suc (nat (log2_int (n div 2)))"
      using ih(1) by (simp add: nat_add_distrib)
    have s2: "nat (log2_int (n div 2) + 1 + 1) = Suc (Suc (nat (log2_int (n div 2))))"
      using ih(1) by (simp add: nat_add_distrib)
    from ih show ?thesis
      unfolding eq s s2 by (auto simp: s)
  qed
qed

lemma ilog2_bounds:
  assumes "0 < q"
  shows "2 powi ilog2 q \<le> q \<and> q < 2 powi (ilog2 q + 1)"
proof (cases "1 \<le> q")
  case True
  define n where "n = \<lfloor>q\<rfloor>"
  have n: "1 \<le> n" using True by (simp add: n_def)
  from log2_int_bounds [OF n] have b: "0 \<le> log2_int n" "2 ^ nat (log2_int n) \<le> n"
    "n < 2 ^ nat (log2_int n + 1)" by simp_all
  have "real_of_int (2 ^ nat (log2_int n)) \<le> real_of_int n" using b(2) by (simp only: of_int_le_iff)
  also have "\<dots> \<le> q" by (simp add: n_def)
  finally have lo: "2 powi log2_int n \<le> q"
    using b(1) by (simp add: power_int_def)
  have "n + 1 \<le> 2 ^ nat (log2_int n + 1)" using b(3) by simp
  then have "real_of_int (n + 1) \<le> real_of_int (2 ^ nat (log2_int n + 1))"
    by (simp only: of_int_le_iff)
  moreover have "q < real_of_int (n + 1)" by (simp add: n_def)
  ultimately have hi: "q < 2 powi (log2_int n + 1)"
    using b(1) by (simp add: power_int_def)
  from lo hi True show ?thesis by (simp add: ilog2_def n_def)
next
  case False
  then have q1: "q < 1" by simp
  define m where "m = \<lceil>1 / q\<rceil> - 1"
  have "1 < 1 / q" using assms q1 by simp
  then have m: "1 \<le> m" by (simp add: m_def less_ceiling_iff)
  from log2_int_bounds [OF m] have b: "0 \<le> log2_int m" "2 ^ nat (log2_int m) \<le> m"
    "m < 2 ^ nat (log2_int m + 1)" by simp_all
  define k where "k = nat (log2_int m)"
  have k: "log2_int m = int k" using b(1) by (simp add: k_def)
  have k1: "nat (log2_int m + 1) = Suc k" using b(1) by (simp add: k_def nat_add_distrib)
  have "1 / q \<le> real_of_int (m + 1)" by (simp add: m_def)
  also have "\<dots> \<le> real_of_int (2 ^ Suc k)" using b(3) unfolding k1 by (simp only: of_int_le_iff)
  finally have "1 / q \<le> 2 ^ Suc k" by simp
  then have lo: "inverse (2 ^ Suc k) \<le> q"
    using assms by (simp add: field_simps)
  have "real_of_int (2 ^ k) \<le> real_of_int m" using b(2) unfolding k_def by (simp only: of_int_le_iff)
  also have "real_of_int m < 1 / q" by (simp add: m_def ceiling_correct flip: less_ceiling_iff)
  finally have "2 ^ k < 1 / q" by simp
  then have hi: "q < inverse (2 ^ k)"
    using assms by (simp add: field_simps)
  have e1: "ilog2 q = - int (Suc k)" using False k by (simp add: ilog2_def m_def)
  have e2: "ilog2 q + 1 = - int k" using e1 by simp
  have p1: "(2::real) powi (- int (Suc k)) = inverse (2 ^ Suc k)"
    by (simp only: power_int_minus power_int_of_nat)
  have p2: "(2::real) powi (- int k) = inverse (2 ^ k)"
    by (simp only: power_int_minus power_int_of_nat)
  from lo hi show ?thesis
    unfolding e2 unfolding e1 p1 p2 by blast
qed

lemma round_to_nonneg:
  assumes "0 \<le> q" and "round_to s q = Finite s' r"
  shows "0 \<le> r \<and> s' = s"
  using assms
  by (auto simp: round_to_def Let_def round_even_nonneg split: if_splits)

lemma float_add_canonical: "float_add a b = Finite s r \<Longrightarrow> 0 \<le> r"
  by (cases a; cases b) (auto simp: Let_def split: if_splits dest: round_to_nonneg [rotated])

lemma emax_nonneg: "0 \<le> emax TYPE(('e::len, 'f::len) ieee)"
  by (simp add: emax_def)

lemma precision_ge2: "2 \<le> precision TYPE(('e::len, 'f::len) ieee)"
proof -
  have "1 \<le> LENGTH('f)" by (simp add: Suc_leI)
  then show ?thesis by (simp add: precision_def)
qed

text \<open>A magnitude that is a whole number of units in the last place is not changed.\<close>

lemma round_to_exact:
  fixes q :: real
  assumes "q \<noteq> 0"
    and "q / 2 powi (max (ilog2 q) (1 - emax TYPE(('e::len, 'f::len) ieee))
                      - (precision TYPE(('e, 'f) ieee) - 1)) = of_int k"
    and "q < 2 powi (emax TYPE(('e, 'f) ieee) + 1)"
  shows "(round_to s q :: ('e, 'f) ieee) = Finite s q"
proof -
  define e where
    "e = max (ilog2 q) (1 - emax TYPE(('e, 'f) ieee)) - (precision TYPE(('e, 'f) ieee) - 1)"
  have k: "q / 2 powi e = of_int k"
    using assms(2) by (simp add: e_def)
  have "of_int (round_even (q / 2 powi e)) * 2 powi e = q / 2 powi e * 2 powi e"
    by (simp only: k round_even_of_int)
  also have "\<dots> = q" by simp
  finally have "of_int (round_even (q / 2 powi e)) * 2 powi e = q" .
  with assms(1,3) show ?thesis
    by (simp add: round_to_def Let_def e_def [symmetric])
qed

lemma ilog2_one: "ilog2 1 = 0"
  by (simp add: ilog2_def)

lemma round_to_one: "(round_to False 1 :: ('e::len, 'f::len) ieee) = Finite False 1"
proof (rule round_to_exact)
  let ?em = "emax TYPE(('e, 'f) ieee)" and ?p = "precision TYPE(('e, 'f) ieee)"
  define n where "n = nat (?p - 1 - max 0 (1 - ?em))"
  have le: "max 0 (1 - ?em) - (?p - 1) \<le> 0"
    using emax_nonneg [where 'e='e and 'f='f] precision_ge2 [where 'e='e and 'f='f] by simp
  then have eq: "max (ilog2 1) (1 - ?em) - (?p - 1) = - int n"
    by (simp add: n_def ilog2_one)
  show "(1::real) / 2 powi (max (ilog2 1) (1 - ?em) - (?p - 1)) = of_int (2 ^ n)"
    unfolding eq by (simp add: power_int_minus divide_inverse)
  have "(2::real) powi 0 < 2 powi (?em + 1)"
    using emax_nonneg [where 'e='e and 'f='f] by (intro power_int_strict_increasing) simp_all
  then show "(1::real) < 2 powi (?em + 1)" by simp
qed simp

text \<open>The numbers with a mantissa of at most \<open>precision\<close> bits and an exponent in range.\<close>

lemma round_to_mantissa_exponent:
  fixes m :: nat and e :: int
  assumes m: "0 < m" "m < 2 ^ nat (precision TYPE(('e::len, 'f::len) ieee))"
    and e: "2 - emax TYPE(('e, 'f) ieee) - precision TYPE(('e, 'f) ieee) \<le> e"
    and top: "real m * 2 powi e < 2 powi (emax TYPE(('e, 'f) ieee) + 1)"
  shows "(round_to s (real m * 2 powi e) :: ('e, 'f) ieee) = Finite s (real m * 2 powi e)"
proof -
  let ?p = "precision TYPE(('e, 'f) ieee)" and ?em = "emax TYPE(('e, 'f) ieee)"
  define q where "q = real m * 2 powi e"
  define E where "E = max (ilog2 q) (1 - ?em) - (?p - 1)"
  have q0: "0 < q" using m(1) by (simp add: q_def)
  have p0: "0 \<le> ?p" by (simp add: precision_def)
  have "real m < 2 ^ nat ?p" using m(2) by (metis of_nat_less_iff of_nat_numeral of_nat_power)
  then have "real m < 2 powi ?p" using p0 by (simp add: power_int_def)
  then have "q < 2 powi ?p * 2 powi e" by (simp add: q_def)
  also have "\<dots> = 2 powi (?p + e)" by (simp add: power_int_add)
  finally have "2 powi ilog2 q < (2::real) powi (?p + e)"
    using ilog2_bounds [OF q0] by simp
  then have "ilog2 q < ?p + e"
    using power_int_increasing [of "?p + e" "ilog2 q" "2::real"] by (cases "ilog2 q < ?p + e") simp_all
  with e have Ee: "E \<le> e" by (simp add: E_def)
  define n where "n = nat (e - E)"
  have "q / 2 powi E = real m * 2 powi (e - E)"
    by (simp add: q_def power_int_diff)
  also have "\<dots> = real m * 2 ^ n"
    using Ee by (simp add: n_def power_int_def)
  also have "\<dots> = of_int (int m * 2 ^ n)" by simp
  finally have k: "q / 2 powi E = of_int (int m * 2 ^ n)" .
  have "(round_to s q :: ('e, 'f) ieee) = Finite s q"
  proof (rule round_to_exact)
    show "q \<noteq> 0" using q0 by simp
    show "q / 2 powi (max (ilog2 q) (1 - ?em) - (?p - 1)) = of_int (int m * 2 ^ n)"
      using k by (simp add: E_def)
    show "q < 2 powi (?em + 1)" using top by (simp add: q_def)
  qed
  then show ?thesis by (simp add: q_def)
qed

lemma is_float_mantissa_exponent:
  fixes m :: nat and e :: int
  assumes "m < 2 ^ nat (precision TYPE(('e::len, 'f::len) ieee))"
    and "2 - emax TYPE(('e, 'f) ieee) - precision TYPE(('e, 'f) ieee) \<le> e"
    and "real m * 2 powi e < 2 powi (emax TYPE(('e, 'f) ieee) + 1)"
  shows "is_float (Finite s (real m * 2 powi e) :: ('e, 'f) ieee)"
proof (cases "m = 0")
  case True
  then show ?thesis by (simp add: round_to_def)
next
  case False
  with assms round_to_mantissa_exponent [of m e s, where 'e = 'e and 'f = 'f]
  show ?thesis by simp
qed

text \<open>
  Some known values: \<^verbatim>\<open>0.1f\<close> and \<^verbatim>\<open>0.1\<close>, two ties that go to the even mantissa, the
  overflow threshold of \<^verbatim>\<open>float\<close>, and the underflow of half the smallest positive value.
\<close>

lemma round_to_samples:
  "(ieee_of_rat (1 / 10) :: float32) = Finite False (13421773 / 2 ^ 27)"
  "(ieee_of_rat (1 / 10) :: float64) = Finite False (3602879701896397 / 2 ^ 55)"
  "(ieee_of_rat 16777217 :: float32) = Finite False 16777216"
  "(ieee_of_rat 16777219 :: float32) = Finite False 16777220"
  "(ieee_of_rat (2 ^ 128 - 2 ^ 103 - 1) :: float32) = limits_max"
  "(ieee_of_rat (2 ^ 128 - 2 ^ 103) :: float32) = Infinity False"
  "(ieee_of_rat (- 1 / 2 ^ 150) :: float32) = Finite True 0"
  "(ieee_of_rat (3 / 2 ^ 150) :: float32) = Finite False (1 / 2 ^ 148)"
  by (simp_all add: float_eval)

text \<open>A finite result of rounding is within half a unit in the last place.\<close>

lemma round_to_near:
  fixes q :: real
  assumes "(round_to s q :: ('e::len, 'f::len) ieee) = Finite s' r"
  shows "\<bar>r - q\<bar> \<le> 2 powi (max (ilog2 q) (1 - emax TYPE(('e, 'f) ieee))
                            - (precision TYPE(('e, 'f) ieee) - 1)) / 2"
proof (cases "q = 0")
  case True
  with assms show ?thesis by (simp add: round_to_def)
next
  case False
  define E where
    "E = max (ilog2 q) (1 - emax TYPE(('e, 'f) ieee)) - (precision TYPE(('e, 'f) ieee) - 1)"
  have pos: "(0::real) < 2 powi E" by simp
  from assms False have r: "r = of_int (round_even (q / 2 powi E)) * 2 powi E"
    by (simp add: round_to_def Let_def E_def split: if_splits)
  have "r - q = (of_int (round_even (q / 2 powi E)) - q / 2 powi E) * 2 powi E"
    by (simp add: r left_diff_distrib)
  then have "\<bar>r - q\<bar> = \<bar>of_int (round_even (q / 2 powi E)) - q / 2 powi E\<bar> * 2 powi E"
    by (simp add: abs_mult)
  also have "\<dots> \<le> 1 / 2 * 2 powi E"
    using round_even_near [of "q / 2 powi E"] pos by (intro mult_right_mono) simp_all
  finally show ?thesis by (simp add: E_def)
qed

lemma limits_max_pos:
  "(0::real) < (2 - 2 powi (1 - precision TYPE(('e::len, 'f::len) ieee)))
               * 2 powi emax TYPE(('e, 'f) ieee)"
proof -
  have "(2::real) powi (1 - precision TYPE(('e, 'f) ieee)) \<le> 2 powi 0"
    by (rule power_int_increasing) (simp_all add: precision_def)
  then show ?thesis by (simp add: zero_less_mult_iff)
qed

subsection \<open>Closure and the error of one operation\<close>

lemma round_even_le: "x \<le> of_int N \<Longrightarrow> round_even x \<le> N"
  unfolding round_even_def Let_def by (auto simp: le_floor_iff; linarith)

text \<open>The exponent of the unit in the last place of a magnitude.\<close>

lemma ulp_exp_bounds:
  fixes q :: real
  defines "E \<equiv> max (ilog2 q) (1 - emax TYPE(('e::len, 'f::len) ieee))
                 - (precision TYPE(('e, 'f) ieee) - 1)"
  assumes "0 < q"
  shows "q < 2 powi (E + precision TYPE(('e, 'f) ieee))"
    and "2 - emax TYPE(('e, 'f) ieee) - precision TYPE(('e, 'f) ieee) \<le> E"
proof -
  let ?p = "precision TYPE(('e, 'f) ieee)"
  have "ilog2 q + 1 \<le> E + ?p" by (simp add: E_def)
  then have "(2::real) powi (ilog2 q + 1) \<le> 2 powi (E + ?p)"
    by (intro power_int_increasing) simp_all
  with ilog2_bounds [OF assms(2)] show "q < 2 powi (E + ?p)" by linarith
  show "2 - emax TYPE(('e, 'f) ieee) - ?p \<le> E" by (simp add: E_def)
qed

lemma round_to_cases:
  fixes q :: real
  defines "E \<equiv> max (ilog2 q) (1 - emax TYPE(('e::len, 'f::len) ieee))
                 - (precision TYPE(('e, 'f) ieee) - 1)"
  defines "n \<equiv> round_even (q / 2 powi E)"
  assumes "0 < q"
  shows "(round_to s q :: ('e, 'f) ieee) =
           (if 2 powi (emax TYPE(('e, 'f) ieee) + 1) \<le> real_of_int n * 2 powi E then Infinity s
            else Finite s (real_of_int n * 2 powi E))"
    and "0 \<le> n" and "n \<le> 2 ^ nat (precision TYPE(('e, 'f) ieee))"
    and "\<bar>real_of_int n * 2 powi E - q\<bar> \<le> 2 powi E / 2"
proof -
  let ?p = "precision TYPE(('e, 'f) ieee)"
  show "(round_to s q :: ('e, 'f) ieee) =
           (if 2 powi (emax TYPE(('e, 'f) ieee) + 1) \<le> real_of_int n * 2 powi E then Infinity s
            else Finite s (real_of_int n * 2 powi E))"
    using assms(3) by (simp add: round_to_def Let_def E_def n_def)
  have pos: "(0::real) < 2 powi E" by simp
  show "0 \<le> n" unfolding n_def using assms(3) by (intro round_even_nonneg) simp
  have p0: "0 \<le> ?p" by (simp add: precision_def)
  have "q / 2 powi E < 2 powi (E + ?p) / 2 powi E"
    using ulp_exp_bounds(1) [OF assms(3), where 'e = 'e and 'f = 'f] pos
    unfolding E_def by (intro divide_strict_right_mono) simp_all
  also have "\<dots> = 2 powi ?p" by (simp add: power_int_add)
  also have "\<dots> = of_int (2 ^ nat ?p)" using p0 by (simp add: power_int_def)
  finally show "n \<le> 2 ^ nat ?p" unfolding n_def by (intro round_even_le) simp
  have "of_int n * 2 powi E - q = (of_int n - q / 2 powi E) * 2 powi E"
    by (simp add: left_diff_distrib)
  then have "\<bar>of_int n * 2 powi E - q\<bar> = \<bar>of_int n - q / 2 powi E\<bar> * 2 powi E"
    by (simp add: abs_mult)
  also have "\<dots> \<le> 1 / 2 * 2 powi E"
    unfolding n_def using round_even_near [of "q / 2 powi E"] pos
    by (intro mult_right_mono) simp_all
  finally show "\<bar>of_int n * 2 powi E - q\<bar> \<le> 2 powi E / 2" by simp
qed

text \<open>Rounding gives a value of the format.\<close>

lemma is_float_round_to:
  assumes "0 \<le> q"
  shows "is_float (round_to s q :: ('e::len, 'f::len) ieee)"
proof (cases "q = 0")
  case True
  then show ?thesis by (simp add: round_to_def)
next
  case False
  with assms have q: "0 < q" by simp
  let ?p = "precision TYPE(('e, 'f) ieee)" and ?em = "emax TYPE(('e, 'f) ieee)"
  define E where "E = max (ilog2 q) (1 - ?em) - (?p - 1)"
  define n where "n = round_even (q / 2 powi E)"
  note rc1 = round_to_cases(1) [OF q, where 'e = 'e and 'f = 'f and s = s, folded E_def n_def]
  note rc = round_to_cases(2,3) [OF q, where 'e = 'e and 'f = 'f, folded E_def n_def]
  note ub = ulp_exp_bounds(2) [OF q, where 'e = 'e and 'f = 'f, folded E_def]
  show ?thesis
  proof (cases "2 powi (?em + 1) \<le> of_int n * (2::real) powi E")
    case True
    then show ?thesis by (simp add: rc1 n_def)
  next
    case top: False
    then have r: "(round_to s q :: ('e, 'f) ieee) = Finite s (of_int n * 2 powi E)"
      by (simp add: rc1 n_def)
    have p0: "0 \<le> ?p" by (simp add: precision_def)
    have "0 < nat ?p"
      using precision_ge2 [where 'e = 'e and 'f = 'f] by simp
    then have p1: "1 < (2::nat) ^ nat ?p"
      by (intro one_less_power) simp_all
    have "0 \<le> n" "n \<le> 2 ^ nat ?p"
      using rc by (simp_all add: n_def)
    then consider "n = 0" | "0 < n" "n < 2 ^ nat ?p" | "n = 2 ^ nat ?p"
      by linarith
    then have "is_float (Finite s (of_int n * 2 powi E) :: ('e, 'f) ieee)"
    proof cases
      case 1
      then show ?thesis by (simp add: round_to_def)
    next
      case 2
      have "is_float (Finite s (real (nat n) * 2 powi E) :: ('e, 'f) ieee)"
      proof (rule is_float_mantissa_exponent)
        show "nat n < 2 ^ nat ?p" using 2 by (simp add: nat_less_iff)
        show "2 - ?em - ?p \<le> E" by (rule ub)
        show "real (nat n) * 2 powi E < 2 powi (?em + 1)" using top 2 by simp
      qed
      then show ?thesis using 2 by simp
    next
      case 3
      have "real_of_int n = 2 powi ?p"
        using p0 by (simp add: 3 power_int_def)
      then have e: "of_int n * (2::real) powi E = real 1 * 2 powi (?p + E)"
        by (simp add: power_int_add)
      have "is_float (Finite s (real 1 * 2 powi (?p + E)) :: ('e, 'f) ieee)"
      proof (rule is_float_mantissa_exponent)
        show "1 < (2::nat) ^ nat ?p" by (rule p1)
        show "2 - ?em - ?p \<le> ?p + E" using ub p0 by simp
        show "real 1 * 2 powi (?p + E) < 2 powi (?em + 1)" using top e by simp
      qed
      then show ?thesis by (simp only: e)
    qed
    then show ?thesis by (simp only: r)
  qed
qed

lemma is_float_sign:
  "is_float (Finite s x :: ('e::len, 'f::len) ieee) \<Longrightarrow> is_float (Finite s' x :: ('e, 'f) ieee)"
  by (auto simp: round_to_def Let_def split: if_splits)

text \<open>The operations of the arithmetic give values of the format.\<close>

lemma is_float_ops:
  fixes a b :: "('e::len, 'f::len) ieee"
  shows "is_float (0 :: ('e, 'f) ieee)" "is_float (1 :: ('e, 'f) ieee)"
    and "is_float (a + b)" and "is_float (a - b)"
    and "is_float a \<Longrightarrow> is_float (- a)" and "is_float a \<Longrightarrow> is_float \<bar>a\<bar>"
    and "is_float a \<Longrightarrow> is_float b \<Longrightarrow> is_float (a * b)"
    and "is_float a \<Longrightarrow> is_float b \<Longrightarrow> is_float (a / b)"
    and "is_float (ieee_of_rat q :: ('e, 'f) ieee)"
    and "is_float (float_cos a)"
proof -
  show "is_float (0 :: ('e, 'f) ieee)"
    by (simp add: zero_ieee_def round_to_def)
  show "is_float (1 :: ('e, 'f) ieee)"
    by (simp add: one_ieee_def round_to_one)
  have z: "is_float (Finite s 0 :: ('e, 'f) ieee)" for s
    by (simp add: round_to_def)
  have add: "is_float (float_add x y)" for x y :: "('e, 'f) ieee"
    by (cases x; cases y) (simp_all add: Let_def is_float_round_to z del: is_float.simps(1))
  show "is_float (a + b)" "is_float (a - b)"
    by (simp_all add: plus_ieee_def minus_ieee_def add)
  show "is_float a \<Longrightarrow> is_float (- a)"
    by (cases a) (simp_all add: uminus_ieee_def is_float_sign del: is_float.simps(1))
  show "is_float a \<Longrightarrow> is_float \<bar>a\<bar>"
    by (cases a) (simp_all add: abs_ieee_def is_float_sign del: is_float.simps(1))
  have nn: "0 \<le> x * y \<and> 0 \<le> x / y"
    if "is_float (Finite s x :: ('e, 'f) ieee)" "is_float (Finite s' y :: ('e, 'f) ieee)"
    for s s' x y
    using that by simp
  show "is_float a \<Longrightarrow> is_float b \<Longrightarrow> is_float (a * b)"
    by (cases a; cases b)
      (auto simp: times_ieee_def is_float_round_to dest: nn simp del: is_float.simps(1))
  show "is_float a \<Longrightarrow> is_float b \<Longrightarrow> is_float (a / b)"
    by (cases a; cases b)
      (auto simp: divide_ieee_def is_float_round_to z dest: nn simp del: is_float.simps(1))
  show "is_float (ieee_of_rat q :: ('e, 'f) ieee)"
    by (simp add: ieee_of_rat_def is_float_round_to)
  show "is_float (float_cos a)"
    by (cases a) (simp_all add: float_cos_def Let_def is_float_round_to)
qed

text \<open>The error of one rounding, for a magnitude that is at most \<open>B\<close>.\<close>

lemma round_to_error:
  fixes q B :: real
  assumes "0 \<le> q" "q \<le> B"
    and "2 powi (1 - emax TYPE(('e::len, 'f::len) ieee)) \<le> B"
    and "B \<le> 2 powi emax TYPE(('e, 'f) ieee)"
  shows "\<exists>r. (round_to s q :: ('e, 'f) ieee) = Finite s r \<and> 0 \<le> r
          \<and> \<bar>r - q\<bar> \<le> B * 2 powi (- precision TYPE(('e, 'f) ieee))"
proof (cases "q = 0")
  case True
  have "0 \<le> B" using assms(1,2) by simp
  then have "0 \<le> B * 2 powi (- precision TYPE(('e, 'f) ieee))" by simp
  with True show ?thesis by (simp add: round_to_def)
next
  case False
  with assms(1) have q: "0 < q" by simp
  let ?p = "precision TYPE(('e, 'f) ieee)" and ?em = "emax TYPE(('e, 'f) ieee)"
  define E where "E = max (ilog2 q) (1 - ?em) - (?p - 1)"
  define n where "n = round_even (q / 2 powi E)"
  define r where "r = real_of_int n * 2 powi E"
  have rc1: "(round_to s q :: ('e, 'f) ieee) =
      (if 2 powi (?em + 1) \<le> r then Infinity s else Finite s r)"
    using round_to_cases(1) [OF q, where 'e = 'e and 'f = 'f and s = s]
    by (simp add: E_def n_def r_def)
  have n0: "0 \<le> n" and near: "\<bar>r - q\<bar> \<le> 2 powi E / 2"
    using round_to_cases(2,4) [OF q, where 'e = 'e and 'f = 'f]
    by (simp_all add: E_def n_def r_def)
  have "(2::real) powi (max (ilog2 q) (1 - ?em)) \<le> B"
  proof (cases "ilog2 q \<le> 1 - ?em")
    case True
    then show ?thesis using assms(3) by (simp add: max_def)
  next
    case False
    then have "max (ilog2 q) (1 - ?em) = ilog2 q" by simp
    then show ?thesis using ilog2_bounds [OF q] assms(2) by simp
  qed
  then have "(2::real) powi (max (ilog2 q) (1 - ?em)) * 2 powi (- ?p) \<le> B * 2 powi (- ?p)"
    by (intro mult_right_mono) simp_all
  moreover have "E = max (ilog2 q) (1 - ?em) + (- ?p) + 1"
    by (simp add: E_def)
  then have "(2::real) powi E = 2 powi (max (ilog2 q) (1 - ?em)) * 2 powi (- ?p) * 2 powi 1"
    by (simp only: power_int_add [of "2::real", simplified])
  then have "(2::real) powi E / 2 = 2 powi (max (ilog2 q) (1 - ?em)) * 2 powi (- ?p)"
    by simp
  ultimately have u: "2 powi E / 2 \<le> B * 2 powi (- ?p)" by simp
  with near have err: "\<bar>r - q\<bar> \<le> B * 2 powi (- ?p)" by simp
  have "(2::real) powi (- ?p) \<le> 2 powi (- 1)"
    using precision_ge2 [where 'e = 'e and 'f = 'f] by (intro power_int_increasing) simp_all
  then have "B * 2 powi (- ?p) \<le> B * 2 powi (- 1)"
    using assms(1,2) by (intro mult_left_mono) simp_all
  with err assms(2) have "r \<le> B + B / 2" by (simp add: power_int_minus abs_le_iff)
  also have "\<dots> < 2 * B" using q assms(2) by simp
  also have "\<dots> \<le> 2 * 2 powi ?em" using assms(4) by simp
  also have "\<dots> = 2 powi (?em + 1)" by (simp add: power_int_add)
  finally have "r < 2 powi (?em + 1)" .
  then have "(round_to s q :: ('e, 'f) ieee) = Finite s r" by (simp add: rc1)
  moreover have "0 \<le> r" using n0 by (simp add: r_def)
  ultimately show ?thesis using err by blast
qed

text \<open>
  The same for a product and for a sum of finite values whose exact result has a magnitude
  of at most \<open>B\<close>: the operation does not overflow and is off by at most
  \<open>B * 2 powi (- precision)\<close>.
\<close>

lemma float_mul_error:
  fixes a b :: "('e::len, 'f::len) ieee"
  assumes "is_finite a" "is_float a" "is_finite b" "is_float b"
    and "\<bar>valof a * valof b\<bar> \<le> B"
    and "2 powi (1 - emax TYPE(('e, 'f) ieee)) \<le> B" "B \<le> 2 powi emax TYPE(('e, 'f) ieee)"
  shows "is_finite (a * b) \<and> is_float (a * b)
     \<and> \<bar>valof (a * b) - valof a * valof b\<bar> \<le> B * 2 powi (- precision TYPE(('e, 'f) ieee))"
proof -
  obtain s x where a: "a = Finite s x" using assms(1) by (cases a) simp_all
  obtain s' y where b: "b = Finite s' y" using assms(3) by (cases b) simp_all
  have x: "0 \<le> x" and y: "0 \<le> y" using assms(2,4) a b by simp_all
  have v: "valof a * valof b = sval (s \<noteq> s') (x * y)"
    by (simp add: a b sval_def)
  have "x * y \<le> B" using assms(5) x y unfolding v by (simp add: sval_def split: if_splits)
  from round_to_error [OF _ this assms(6,7), of "s \<noteq> s'"] x y
  obtain r where r: "(round_to (s \<noteq> s') (x * y) :: ('e, 'f) ieee) = Finite (s \<noteq> s') r"
    "0 \<le> r" "\<bar>r - x * y\<bar> \<le> B * 2 powi (- precision TYPE(('e, 'f) ieee))"
    by auto
  have m: "a * b = Finite (s \<noteq> s') r" using r(1) by (simp add: a b times_ieee_def)
  have "\<bar>valof (a * b) - valof a * valof b\<bar> = \<bar>r - x * y\<bar>"
    unfolding m v by (simp add: sval_def abs_minus_commute)
  with r(3) is_float_ops(7) [OF assms(2,4)] show ?thesis by (simp add: m)
qed

lemma float_add_error:
  fixes a b :: "('e::len, 'f::len) ieee"
  assumes "is_finite a" "is_finite b"
    and "\<bar>valof a + valof b\<bar> \<le> B"
    and "2 powi (1 - emax TYPE(('e, 'f) ieee)) \<le> B" "B \<le> 2 powi emax TYPE(('e, 'f) ieee)"
  shows "is_finite (a + b) \<and> is_float (a + b)
     \<and> \<bar>valof (a + b) - (valof a + valof b)\<bar> \<le> B * 2 powi (- precision TYPE(('e, 'f) ieee))"
proof -
  obtain s x where a: "a = Finite s x" using assms(1) by (cases a) simp_all
  obtain s' y where b: "b = Finite s' y" using assms(2) by (cases b) simp_all
  define d where "d = sval s x + sval s' y"
  have v: "valof a + valof b = d" by (simp add: a b d_def)
  have B0: "0 \<le> B * 2 powi (- precision TYPE(('e, 'f) ieee))"
    using assms(3) by simp
  show ?thesis
  proof (cases "d = 0")
    case True
    then have "a + b = Finite (s \<and> s') 0" by (simp add: a b plus_ieee_def d_def)
    with True B0 is_float_ops(3) [of a b] show ?thesis by (simp add: v)
  next
    case False
    have "\<bar>d\<bar> \<le> B" using assms(3) by (simp add: v)
    from round_to_error [OF _ this assms(4,5), of "d < 0"]
    obtain r where r: "(round_to (d < 0) \<bar>d\<bar> :: ('e, 'f) ieee) = Finite (d < 0) r"
      "0 \<le> r" "\<bar>r - \<bar>d\<bar>\<bar> \<le> B * 2 powi (- precision TYPE(('e, 'f) ieee))"
      by auto
    have m: "a + b = Finite (d < 0) r"
      using False by (simp add: a b plus_ieee_def d_def [symmetric] Let_def r(1))
    have "\<bar>valof (a + b) - d\<bar> = \<bar>r - \<bar>d\<bar>\<bar>"
    proof (cases "d < 0")
      case True
      then have "valof (a + b) - d = - (r - \<bar>d\<bar>)"
        unfolding m by (simp add: sval_def)
      then show ?thesis by (simp only: abs_minus_cancel)
    next
      case False
      then have "valof (a + b) - d = r - \<bar>d\<bar>"
        unfolding m by (simp add: sval_def)
      then show ?thesis by simp
    qed
    with r(3) is_float_ops(3) [of a b] show ?thesis by (simp add: m v)
  qed
qed

lemma float_one_times:
  fixes x :: "('e::len, 'f::len) ieee"
  shows "is_float x \<Longrightarrow> 1 * x = x"
  by (cases x) (simp_all add: ieee_ops)

lemma float_zero_times:
  "0 * (Finite s v :: ('e::len, 'f::len) ieee) = Finite s 0"
  by (simp add: ieee_ops round_to_def)

lemma float_add_zero:
  fixes x :: "('e::len, 'f::len) ieee"
  assumes "is_float x" "x = Finite s v"
  shows "x + Finite s' 0 = (if v = 0 then Finite (s \<and> s') 0 else x)"
    and "Finite s' 0 + x = (if v = 0 then Finite (s' \<and> s) 0 else x)"
  using assms by (auto simp: ieee_ops sval_def Let_def)

lemma float_minus_add: "(a :: ('e::len, 'f::len) ieee) - b = a + (- b)"
  by (simp add: ieee_ops)

section \<open>Facts about the integer model\<close>

lemmas int32_ops = zero_int32_def one_int32_def plus_int32_def minus_int32_def uminus_int32_def
  times_int32_def less_int32_def less_eq_int32_def

text \<open>Every \<^verbatim>\<open>int\<close> converts to a finite \<^verbatim>\<open>float\<close>.\<close>

lemma float_of_int32_finite:
  assumes "is_int32 (Int32 n)"
  shows "\<exists>r. (float_of_int32 (Int32 n) :: float32) = Finite (n < 0) r \<and> 0 \<le> r"
proof -
  have "\<bar>n\<bar> \<le> 2147483648" using assms by (auto simp: abs_le_iff)
  then have "real_of_int \<bar>n\<bar> \<le> real_of_int 2147483648" by (simp only: of_int_le_iff)
  then have "\<bar>real_of_int n\<bar> \<le> 2147483648" by simp
  from round_to_error [OF _ this, where 'e = 8 and 'f = 23 and s = "n < 0"]
  show ?thesis by (auto simp: ieee_of_rat_def emax_def)
qed

text \<open>An \<^verbatim>\<open>int\<close> of at most 24 bits is a \<^verbatim>\<open>float\<close>, and converts back to itself.\<close>

lemma float_of_int32_exact:
  assumes "\<bar>n\<bar> \<le> 16777216"
  shows "(float_of_int32 (Int32 n) :: float32) = Finite (n < 0) \<bar>real_of_int n\<bar>"
    and "int32_of_float (float_of_int32 (Int32 n) :: float32) = Int32 n"
proof -
  consider "n = 0" | "0 < \<bar>n\<bar>" "\<bar>n\<bar> < 16777216" | "\<bar>n\<bar> = 16777216"
    using assms by linarith
  then show e: "(float_of_int32 (Int32 n) :: float32) = Finite (n < 0) \<bar>real_of_int n\<bar>"
  proof cases
    case 1
    then show ?thesis by (simp add: ieee_of_rat_def round_to_def)
  next
    case 2
    have "(round_to (n < 0) (real (nat \<bar>n\<bar>) * 2 powi 0) :: float32)
        = Finite (n < 0) (real (nat \<bar>n\<bar>) * 2 powi 0)"
      using 2 by (intro round_to_mantissa_exponent) (simp_all add: precision_def emax_def)
    then show ?thesis by (simp add: ieee_of_rat_def)
  next
    case 3
    then have "\<bar>real_of_int n\<bar> = 16777216" by linarith
    then show ?thesis by (simp add: float_eval)
  qed
  show "int32_of_float (float_of_int32 (Int32 n) :: float32) = Int32 n"
  proof -
    have "\<bar>real_of_int n\<bar> = real_of_int \<bar>n\<bar>" by simp
    then have "\<lfloor>\<bar>real_of_int n\<bar>\<rfloor> = \<bar>n\<bar>" by (simp only: floor_of_int)
    then show ?thesis
      using assms unfolding e by (auto simp: checked_def)
  qed
qed

section \<open>Approximate equality\<close>

text \<open>
  The code replaces the sum by \<open>limits_max\<close> unless the sum is below it; this is the lesser
  of the two in the order of the type, also when the sum is a NaN or an infinity.
\<close>

lemma min_limits_max:
  fixes a b :: "('e::len, 'f::len) ieee"
  shows "min (\<bar>a\<bar> + \<bar>b\<bar>) limits_max
       = (if \<bar>a\<bar> + \<bar>b\<bar> < limits_max then \<bar>a\<bar> + \<bar>b\<bar> else limits_max)"
proof (cases "float_add (float_abs a) (float_abs b)")
  case NaN
  then show ?thesis by (simp add: min_def ieee_ops limits_max_def)
next
  case (Infinity s)
  then show ?thesis by (simp add: min_def ieee_ops limits_max_def)
next
  case (Finite s r)
  then have "0 \<le> r" by (rule float_add_canonical)
  with Finite limits_max_pos [where 'e='e and 'f='f] show ?thesis
    by (auto simp: min_def ieee_ops limits_max_def sval_def split: if_splits)
qed

text \<open>
  C1: for all \<open>a\<close>, \<open>b\<close> and \<open>epsilon\<close>, \<open>almostEquals a b epsilon\<close> is true when \<open>a == b\<close>.
  Otherwise, with \<open>diff = |a - b|\<close>: when \<open>a\<close> or \<open>b\<close> is a zero or \<open>diff\<close> is below the
  smallest positive value of the type, the result is \<open>diff < epsilon * denorm_min\<close>; in the
  remaining case it is \<open>diff / min (|a| + |b|) max < epsilon\<close>.
\<close>

theorem almostEquals_cases:
  fixes a b epsilon :: "('e::len, 'f::len) ieee"
  shows "(float_eq a b \<longrightarrow> almostEquals a b epsilon)
    \<and> (\<not> float_eq a b \<and> (is_zero a \<or> is_zero b \<or> \<bar>a - b\<bar> < limits_denorm_min) \<longrightarrow>
         almostEquals a b epsilon = (\<bar>a - b\<bar> < epsilon * limits_denorm_min))
    \<and> (\<not> float_eq a b \<and> \<not> (is_zero a \<or> is_zero b \<or> \<bar>a - b\<bar> < limits_denorm_min) \<longrightarrow>
         almostEquals a b epsilon = (\<bar>a - b\<bar> / min (\<bar>a\<bar> + \<bar>b\<bar>) limits_max < epsilon))"
  by (simp add: almostEquals_def Let_def float_eq_zero min_limits_max)

text \<open>
  The three cases at \<^verbatim>\<open>float\<close>, with the default \<open>epsilon\<close>: \<open>1\<close> and \<open>1\<close>; \<open>0\<close> and the
  smallest positive value; \<open>1\<close> and its successor \<open>1 + 2\<^sup>-\<^sup>2\<^sup>3\<close>.
\<close>

theorem almostEquals_cases_witness:
  "float_eq (1 :: float32) 1 \<and> almostEquals (1 :: float32) 1 limits_epsilon
   \<and> \<not> float_eq (0 :: float32) limits_denorm_min \<and> is_zero (0 :: float32)
   \<and> almostEquals (0 :: float32) limits_denorm_min limits_epsilon
       = (\<bar>0 - limits_denorm_min :: float32\<bar> < limits_epsilon * limits_denorm_min)
   \<and> \<not> float_eq (1 :: float32) (ieee_of_rat (1 + 1 / 2 ^ 23))
   \<and> \<not> (is_zero (1 :: float32) \<or> is_zero (ieee_of_rat (1 + 1 / 2 ^ 23) :: float32)
        \<or> \<bar>1 - ieee_of_rat (1 + 1 / 2 ^ 23) :: float32\<bar> < limits_denorm_min)
   \<and> almostEquals (1 :: float32) (ieee_of_rat (1 + 1 / 2 ^ 23)) limits_epsilon
       = (\<bar>1 - ieee_of_rat (1 + 1 / 2 ^ 23) :: float32\<bar>
            / min (\<bar>1\<bar> + \<bar>ieee_of_rat (1 + 1 / 2 ^ 23)\<bar>) limits_max < limits_epsilon)"
proof -
  let ?e = "limits_epsilon :: float32" and ?d = "limits_denorm_min :: float32"
  let ?b = "ieee_of_rat (1 + 1 / 2 ^ 23) :: float32"
  have h1: "float_eq (1 :: float32) 1"
    by (simp add: ieee_ops)
  have h2: "\<not> float_eq (0 :: float32) ?d \<and> is_zero (0 :: float32)"
    by (simp add: ieee_ops float_eval)
  have h3: "\<not> float_eq (1 :: float32) ?b
      \<and> \<not> (is_zero (1 :: float32) \<or> is_zero ?b \<or> \<bar>1 - ?b\<bar> < ?d)"
    by (simp add: ieee_ops float_eval)
  from h1 almostEquals_cases [of 1 1 ?e] have c1: "almostEquals (1 :: float32) 1 ?e"
    by blast
  from h2 almostEquals_cases [of 0 ?d ?e]
  have c2: "almostEquals 0 ?d ?e = (\<bar>0 - ?d\<bar> < ?e * ?d)"
    by blast
  from h3 almostEquals_cases [of 1 ?b ?e]
  have c3: "almostEquals 1 ?b ?e = (\<bar>1 - ?b\<bar> / min (\<bar>1\<bar> + \<bar>?b\<bar>) limits_max < ?e)"
    by blast
  from h1 h2 h3 c1 c2 c3 show ?thesis by blast
qed

section \<open>Sign\<close>

text \<open>
  C10: \<open>sign x\<close> is 0 for every \<open>x\<close> that is neither greater nor less than zero. A NaN is
  such a value, so \<open>sign NaN = 0\<close>, the result for a zero.
\<close>

theorem sign_unordered:
  fixes x :: "'a::{zero,ord}"
  shows "(\<not> 0 < x \<and> \<not> x < 0 \<longrightarrow> sign x = 0)
     \<and> \<not> 0 < (NaN :: ('e::len, 'f::len) ieee) \<and> \<not> (NaN :: ('e, 'f) ieee) < 0
     \<and> sign (NaN :: ('e, 'f) ieee) = 0 \<and> sign (0 :: ('e, 'f) ieee) = 0"
  by (simp add: sign_def ieee_ops sval_def)

theorem sign_unordered_witness:
  "\<not> 0 < (Finite True 0 :: float32) \<and> \<not> (Finite True 0 :: float32) < 0
     \<and> sign (Finite True 0 :: float32) = 0"
proof -
  have h: "\<not> 0 < (Finite True 0 :: float32) \<and> \<not> (Finite True 0 :: float32) < 0"
    by (simp add: ieee_ops)
  with sign_unordered [where 'e = 8 and 'f = 23 and x = "Finite True 0 :: float32"]
  show ?thesis by blast
qed

section \<open>The constant \<^verbatim>\<open>pi<T>()\<close>\<close>

text \<open>
  The literal of the code has 46 digits; four of them are checked here against the
  number \<open>\<pi>\<close> of analysis, which is enough for the properties below. The bounds on \<open>\<pi>\<close>
  come from \<open>sin (\<pi> / 6) = 1 / 2\<close> and the Taylor polynomial of the sine.
\<close>

lemma lessThan_7: "{..<7::nat} = {0, 1, 2, 3, 4, 5, 6}"
  by auto

lemma sin_taylor7:
  fixes x :: real
  shows "(\<Sum>m<7. sin_coeff m * x ^ m) = x - x ^ 3 / 6 + x ^ 5 / 120"
  unfolding lessThan_7 by (simp add: sin_coeff_def fact_numeral)

lemma sin_taylor_bounds:
  fixes x :: real
  shows "\<bar>sin x - (x - x ^ 3 / 6 + x ^ 5 / 120)\<bar> \<le> \<bar>x\<bar> ^ 7 / 5040"
proof -
  have e: "inverse (fact 7) * \<bar>x\<bar> ^ 7 = \<bar>x\<bar> ^ 7 / 5040"
    by (simp add: fact_numeral)
  show ?thesis
    using Maclaurin_sin_bound [of x 7] unfolding sin_taylor7 e .
qed

lemma pi_lower: "314148 / 100000 < pi"
proof -
  let ?a = "52358 / 100000 :: real"
  have "sin ?a \<le> (?a - ?a ^ 3 / 6 + ?a ^ 5 / 120) + \<bar>?a\<bar> ^ 7 / 5040"
    using sin_taylor_bounds [of ?a] by linarith
  also have "\<dots> < 1 / 2" by (simp add: power_divide)
  also have "\<dots> = sin (pi / 6)" by (simp add: sin_30)
  finally have "sin ?a < sin (pi / 6)" .
  moreover have "- (pi / 2) \<le> ?a" "?a \<le> pi / 2" "- (pi / 2) \<le> pi / 6" "pi / 6 \<le> pi / 2"
    using pi_ge_two by simp_all
  ultimately have "?a < pi / 6" by (simp only: sin_mono_less_eq)
  then show ?thesis by simp
qed

lemma pi_upper: "pi < 314166 / 100000"
proof -
  let ?b = "52361 / 100000 :: real"
  have "sin (pi / 6) = 1 / 2" by (simp add: sin_30)
  also have "\<dots> < (?b - ?b ^ 3 / 6 + ?b ^ 5 / 120) - \<bar>?b\<bar> ^ 7 / 5040"
    by (simp add: power_divide)
  also have "\<dots> \<le> sin ?b"
    using sin_taylor_bounds [of ?b] by linarith
  finally have "sin (pi / 6) < sin ?b" .
  moreover have "- (pi / 2) \<le> ?b" "?b \<le> pi / 2" "- (pi / 2) \<le> pi / 6" "pi / 6 \<le> pi / 2"
    using pi_ge_two by simp_all
  ultimately have "pi / 6 < ?b" by (simp only: sin_mono_less_eq)
  then show ?thesis by simp
qed

lemma gf_pi_real: "\<bar>gf_pi of_rat - pi\<bar> < 12 / 10 ^ 5"
proof -
  have "(gf_pi of_rat :: real) = 3141592653589793238462643383279502884197169399 / 10 ^ 45"
    by (simp add: gf_pi_def of_rat_divide of_rat_power)
  then have "314159 / 100000 < (gf_pi of_rat :: real)" "(gf_pi of_rat :: real) < 31416 / 10000"
    by simp_all
  with pi_lower pi_upper show ?thesis
    unfolding abs_less_iff by (simp add: field_simps)
qed

lemma gf_pi_float32: "(gf_pi ieee_of_rat :: float32) = Finite False (13176795 / 4194304)"
  by (simp add: gf_pi_def float_eval)

lemma gf_pi_float64:
  "(gf_pi ieee_of_rat :: float64) = Finite False (884279719003555 / 281474976710656)"
  by (simp add: gf_pi_def float_eval)

section \<open>Angles\<close>

lemma angles_exact:
  fixes d r :: "'a::field_char_0"
  shows "degreesToRadians of_rat d = d * (gf_pi of_rat / 180)"
    and "radiansToDegrees of_rat r = r * (180 / gf_pi of_rat)"
    and "radiansToDegrees of_rat (degreesToRadians of_rat d) = d"
    and "degreesToRadians of_rat (radiansToDegrees of_rat r) = r"
    and "degreesToRadians of_rat 180 = (gf_pi of_rat :: 'a)"
    and "radiansToDegrees of_rat (gf_pi of_rat) = (180 :: 'a)"
proof -
  have nz: "(gf_pi of_rat :: 'a) \<noteq> 0"
    by (simp add: gf_pi_def)
  show "degreesToRadians of_rat d = d * (gf_pi of_rat / 180)"
    and "radiansToDegrees of_rat r = r * (180 / gf_pi of_rat)"
    by (simp_all add: degreesToRadians_def radiansToDegrees_def)
  show "radiansToDegrees of_rat (degreesToRadians of_rat d) = d"
    and "degreesToRadians of_rat (radiansToDegrees of_rat r) = r"
    and "degreesToRadians of_rat 180 = (gf_pi of_rat :: 'a)"
    and "radiansToDegrees of_rat (gf_pi of_rat) = (180 :: 'a)"
    using nz by (simp_all add: degreesToRadians_def radiansToDegrees_def)
qed

lemma angles_float32:
  "degreesToRadians ieee_of_rat (ieee_of_rat 180) = (gf_pi ieee_of_rat :: float32)"
  "radiansToDegrees ieee_of_rat (gf_pi ieee_of_rat) = (ieee_of_rat 180 :: float32)"
  by (simp_all add: degreesToRadians_def radiansToDegrees_def gf_pi_float32 ieee_ops,
      simp_all add: float_eval)

lemma angles_float64:
  "degreesToRadians ieee_of_rat (ieee_of_rat 180) = (gf_pi ieee_of_rat :: float64)"
  "radiansToDegrees ieee_of_rat (gf_pi ieee_of_rat) = (ieee_of_rat 180 :: float64)"
  by (simp_all add: degreesToRadians_def radiansToDegrees_def gf_pi_float64 ieee_ops,
      simp_all add: float_eval)

text \<open>
  C7: in exact arithmetic \<open>degreesToRadians\<close> multiplies by \<open>pi / 180\<close> and
  \<open>radiansToDegrees\<close> by \<open>180 / pi\<close>, with \<open>pi\<close> the constant of the code, and each undoes the
  other. The constant is \<open>\<pi>\<close> to four decimals. \<open>degreesToRadians 180\<close> is the constant
  and \<open>radiansToDegrees pi\<close> is \<open>180\<close>, in exact arithmetic and also, with no rounding
  error at all, for \<^verbatim>\<open>float\<close> and \<^verbatim>\<open>double\<close>.
\<close>

theorem angle_conversion:
  fixes d r :: "'a::field_char_0"
  shows "degreesToRadians of_rat d = d * (gf_pi of_rat / 180)
     \<and> radiansToDegrees of_rat r = r * (180 / gf_pi of_rat)
     \<and> radiansToDegrees of_rat (degreesToRadians of_rat d) = d
     \<and> degreesToRadians of_rat (radiansToDegrees of_rat r) = r
     \<and> degreesToRadians of_rat 180 = (gf_pi of_rat :: 'a)
     \<and> radiansToDegrees of_rat (gf_pi of_rat) = (180 :: 'a)
     \<and> \<bar>gf_pi of_rat - pi\<bar> < 12 / 10 ^ 5
     \<and> degreesToRadians ieee_of_rat (ieee_of_rat 180) = (gf_pi ieee_of_rat :: float32)
     \<and> radiansToDegrees ieee_of_rat (gf_pi ieee_of_rat) = (ieee_of_rat 180 :: float32)
     \<and> degreesToRadians ieee_of_rat (ieee_of_rat 180) = (gf_pi ieee_of_rat :: float64)
     \<and> radiansToDegrees ieee_of_rat (gf_pi ieee_of_rat) = (ieee_of_rat 180 :: float64)"
  using angles_exact(1,3) [of d] angles_exact(2,4) [of r] angles_exact(5,6) [where 'a = 'a]
    gf_pi_real angles_float32 angles_float64
  by blast

section \<open>Step functions\<close>

text \<open>
  One rounded operation of a Horner evaluation on the unit interval: \<open>x\<close> is the computed
  and \<open>X\<close> the exact value so far, and \<open>k\<close> counts the accumulated error in units of
  \<open>2 powi (- precision)\<close>.
\<close>

lemma float_step_mul:
  fixes x t :: "('e::len, 'f::len) ieee" and X k :: real
  assumes em: "4 \<le> emax TYPE(('e, 'f) ieee)"
    and x: "is_finite x" "is_float x"
    and err: "\<bar>valof x - X\<bar> \<le> k * 2 powi (- precision TYPE(('e, 'f) ieee))"
    and X: "\<bar>X\<bar> \<le> 15"
    and k: "k * 2 powi (- precision TYPE(('e, 'f) ieee)) \<le> 1"
    and t: "is_finite t" "is_float t" "0 \<le> valof t" "valof t \<le> 1"
  shows "is_finite (x * t) \<and> is_float (x * t)
     \<and> \<bar>valof (x * t) - X * valof t\<bar> \<le> (k + 16) * 2 powi (- precision TYPE(('e, 'f) ieee))
     \<and> \<bar>X * valof t\<bar> \<le> 15"
proof -
  let ?u = "2 powi (- precision TYPE(('e, 'f) ieee)) :: real"
  have "\<bar>valof x\<bar> \<le> \<bar>X\<bar> + \<bar>valof x - X\<bar>" by simp
  with err X k have b: "\<bar>valof x\<bar> \<le> 16" by simp
  have "\<bar>valof x * valof t\<bar> = \<bar>valof x\<bar> * valof t" using t(3) by (simp add: abs_mult)
  also have "\<dots> \<le> 16 * 1" using b t(3,4) by (intro mult_mono) simp_all
  finally have B: "\<bar>valof x * valof t\<bar> \<le> 16" by simp
  have lo: "(2::real) powi (1 - emax TYPE(('e, 'f) ieee)) \<le> 16"
  proof -
    have "(2::real) powi (1 - emax TYPE(('e, 'f) ieee)) \<le> 2 powi 4"
      using em by (intro power_int_increasing) simp_all
    then show ?thesis by simp
  qed
  have hi: "(16::real) \<le> 2 powi emax TYPE(('e, 'f) ieee)"
  proof -
    have "(2::real) powi 4 \<le> 2 powi emax TYPE(('e, 'f) ieee)"
      using em by (intro power_int_increasing) simp_all
    then show ?thesis by simp
  qed
  from float_mul_error [OF x(1,2) t(1,2) B lo hi]
  have m: "is_finite (x * t)" "is_float (x * t)"
    "\<bar>valof (x * t) - valof x * valof t\<bar> \<le> 16 * ?u"
    by simp_all
  have "\<bar>valof x * valof t - X * valof t\<bar> = \<bar>valof x - X\<bar> * valof t"
    using t(3) by (simp add: left_diff_distrib [symmetric] abs_mult)
  also have "\<dots> \<le> (k * ?u) * 1"
    using err t(3,4) by (intro mult_mono) simp_all
  finally have e: "\<bar>valof x * valof t - X * valof t\<bar> \<le> k * ?u" by simp
  have "\<bar>valof (x * t) - X * valof t\<bar>
      \<le> \<bar>valof (x * t) - valof x * valof t\<bar> + \<bar>valof x * valof t - X * valof t\<bar>"
    by simp
  with m(3) e have 1: "\<bar>valof (x * t) - X * valof t\<bar> \<le> (k + 16) * ?u"
    by (simp add: distrib_right)
  have "\<bar>X * valof t\<bar> = \<bar>X\<bar> * valof t" using t(3) by (simp add: abs_mult)
  also have "\<dots> \<le> 15 * 1" using X t(3,4) by (intro mult_mono) simp_all
  finally have 2: "\<bar>X * valof t\<bar> \<le> 15" by simp
  from m(1,2) 1 2 show ?thesis by simp
qed

lemma float_step_add:
  fixes x c :: "('e::len, 'f::len) ieee" and X k :: real
  assumes em: "4 \<le> emax TYPE(('e, 'f) ieee)"
    and x: "is_finite x"
    and err: "\<bar>valof x - X\<bar> \<le> k * 2 powi (- precision TYPE(('e, 'f) ieee))"
    and c: "is_finite c"
    and X: "\<bar>X + valof c\<bar> \<le> 15"
    and k: "k * 2 powi (- precision TYPE(('e, 'f) ieee)) \<le> 1"
  shows "is_finite (x + c) \<and> is_float (x + c)
     \<and> \<bar>valof (x + c) - (X + valof c)\<bar> \<le> (k + 16) * 2 powi (- precision TYPE(('e, 'f) ieee))"
proof -
  let ?u = "2 powi (- precision TYPE(('e, 'f) ieee)) :: real"
  have "\<bar>valof x + valof c\<bar> \<le> \<bar>X + valof c\<bar> + \<bar>valof x - X\<bar>" by simp
  with err X k have B: "\<bar>valof x + valof c\<bar> \<le> 16" by simp
  have lo: "(2::real) powi (1 - emax TYPE(('e, 'f) ieee)) \<le> 16"
  proof -
    have "(2::real) powi (1 - emax TYPE(('e, 'f) ieee)) \<le> 2 powi 4"
      using em by (intro power_int_increasing) simp_all
    then show ?thesis by simp
  qed
  have hi: "(16::real) \<le> 2 powi emax TYPE(('e, 'f) ieee)"
  proof -
    have "(2::real) powi 4 \<le> 2 powi emax TYPE(('e, 'f) ieee)"
      using em by (intro power_int_increasing) simp_all
    then show ?thesis by simp
  qed
  from float_add_error [OF x c B lo hi]
  have m: "is_finite (x + c)" "is_float (x + c)"
    "\<bar>valof (x + c) - (valof x + valof c)\<bar> \<le> 16 * ?u"
    by simp_all
  have "\<bar>valof (x + c) - (X + valof c)\<bar>
      \<le> \<bar>valof (x + c) - (valof x + valof c)\<bar> + \<bar>valof x - X\<bar>"
    by simp
  with m(3) err have "\<bar>valof (x + c) - (X + valof c)\<bar> \<le> (k + 16) * ?u"
    by (simp add: distrib_right)
  with m(1,2) show ?thesis by simp
qed

lemma ulp_small:
  assumes "7 \<le> precision TYPE(('e::len, 'f::len) ieee)"
  shows "128 * (2::real) powi (- precision TYPE(('e, 'f) ieee)) \<le> 1"
proof -
  have "(2::real) powi (- precision TYPE(('e, 'f) ieee)) \<le> 2 powi (- 7)"
    using assms by (intro power_int_increasing) simp_all
  then show ?thesis by (simp add: power_int_minus)
qed

text \<open>The two evaluations, for a format with at least 7 bits of precision.\<close>

lemma cubicStep_error:
  fixes t :: "('e::len, 'f::len) ieee"
  assumes em: "4 \<le> emax TYPE(('e, 'f) ieee)" and p: "7 \<le> precision TYPE(('e, 'f) ieee)"
    and lit: "(ieee_of_rat 2 :: ('e, 'f) ieee) = Finite False 2"
      "(ieee_of_rat 3 :: ('e, 'f) ieee) = Finite False 3"
    and t: "is_finite t" "is_float t" "0 \<le> valof t" "valof t \<le> 1"
  shows "\<bar>valof (cubicStep ieee_of_rat t) - (- 2 * valof t ^ 3 + 3 * valof t ^ 2)\<bar>
      \<le> 64 * 2 powi (- precision TYPE(('e, 'f) ieee))"
proof -
  let ?u = "2 powi (- precision TYPE(('e, 'f) ieee)) :: real"
  define v where "v = valof t"
  note tv = t [folded v_def]
  have u: "128 * ?u \<le> 1" by (rule ulp_small [OF p])
  have u0: "0 \<le> ?u" by simp
  define x0 :: "('e, 'f) ieee" where "x0 = - ieee_of_rat 2"
  have x0: "is_finite x0" "is_float x0" "\<bar>valof x0 - (- 2)\<bar> \<le> 0 * ?u"
    using is_float_ops(5) [OF is_float_ops(9), of 2, where 'e = 'e and 'f = 'f]
    by (simp_all add: x0_def lit uminus_ieee_def sval_def)
  have s1: "is_finite (x0 * t) \<and> is_float (x0 * t)
      \<and> \<bar>valof (x0 * t) - (- 2) * valof t\<bar> \<le> (0 + 16) * ?u \<and> \<bar>(- 2) * valof t\<bar> \<le> 15"
    using u0 by (intro float_step_mul [OF em x0 _ _ t]) simp_all
  have c3: "is_finite (ieee_of_rat 3 :: ('e, 'f) ieee)"
    "valof (ieee_of_rat 3 :: ('e, 'f) ieee) = 3"
    by (simp_all add: lit sval_def)
  have "is_finite (x0 * t + ieee_of_rat 3) \<and> is_float (x0 * t + ieee_of_rat 3)
      \<and> \<bar>valof (x0 * t + ieee_of_rat 3)
          - ((- 2) * valof t + valof (ieee_of_rat 3 :: ('e, 'f) ieee))\<bar> \<le> (16 + 16) * ?u"
    using s1 u u0 t(3,4) by (intro float_step_add [OF em _ _ c3(1)]) (simp_all add: c3(2))
  then have s2: "is_finite (x0 * t + ieee_of_rat 3)" "is_float (x0 * t + ieee_of_rat 3)"
      "\<bar>valof (x0 * t + ieee_of_rat 3) - (- 2 * v + 3)\<bar> \<le> 32 * ?u"
    by (simp_all add: c3(2) v_def)
  have m3: "is_finite ((x0 * t + ieee_of_rat 3) * t) \<and> is_float ((x0 * t + ieee_of_rat 3) * t)
      \<and> \<bar>valof ((x0 * t + ieee_of_rat 3) * t) - (- 2 * v + 3) * valof t\<bar> \<le> (32 + 16) * ?u
      \<and> \<bar>(- 2 * v + 3) * valof t\<bar> \<le> 15"
    using u u0 tv(3,4) by (intro float_step_mul [OF em s2 _ _ t]) simp_all
  then have m3': "is_finite ((x0 * t + ieee_of_rat 3) * t)" "is_float ((x0 * t + ieee_of_rat 3) * t)"
      "\<bar>valof ((x0 * t + ieee_of_rat 3) * t) - (- 2 * v + 3) * v\<bar> \<le> 48 * ?u"
      "\<bar>(- 2 * v + 3) * v\<bar> \<le> 15"
    by (simp_all add: v_def)
  have "is_finite ((x0 * t + ieee_of_rat 3) * t * t) \<and> is_float ((x0 * t + ieee_of_rat 3) * t * t)
      \<and> \<bar>valof ((x0 * t + ieee_of_rat 3) * t * t) - (- 2 * v + 3) * v * valof t\<bar> \<le> (48 + 16) * ?u
      \<and> \<bar>(- 2 * v + 3) * v * valof t\<bar> \<le> 15"
    using u u0 by (intro float_step_mul [OF em m3' _ t]) simp_all
  then have "\<bar>valof ((x0 * t + ieee_of_rat 3) * t * t) - (- 2 * v + 3) * v * v\<bar> \<le> 64 * ?u"
    by (simp add: v_def)
  moreover have "(- 2 * v + 3) * v * v = - 2 * v ^ 3 + 3 * v ^ 2"
    by (simp add: algebra_simps power2_eq_square power3_eq_cube)
  ultimately show ?thesis
    by (simp add: cubicStep_def x0_def v_def)
qed

lemma quinticStep_error:
  fixes t :: "('e::len, 'f::len) ieee"
  assumes em: "4 \<le> emax TYPE(('e, 'f) ieee)" and p: "7 \<le> precision TYPE(('e, 'f) ieee)"
    and lit: "(ieee_of_rat 6 :: ('e, 'f) ieee) = Finite False 6"
      "(ieee_of_rat 15 :: ('e, 'f) ieee) = Finite False 15"
      "(ieee_of_rat 10 :: ('e, 'f) ieee) = Finite False 10"
    and t: "is_finite t" "is_float t" "0 \<le> valof t" "valof t \<le> 1"
  shows "\<bar>valof (quinticStep ieee_of_rat t)
          - (6 * valof t ^ 5 - 15 * valof t ^ 4 + 10 * valof t ^ 3)\<bar>
      \<le> 112 * 2 powi (- precision TYPE(('e, 'f) ieee))"
proof -
  let ?u = "2 powi (- precision TYPE(('e, 'f) ieee)) :: real"
  define v where "v = valof t"
  note tv = t [folded v_def]
  have u: "128 * ?u \<le> 1" by (rule ulp_small [OF p])
  have u0: "0 \<le> ?u" by simp
  define c6 c15 c10 :: "('e, 'f) ieee"
    where "c6 = ieee_of_rat 6" and "c15 = - ieee_of_rat 15" and "c10 = ieee_of_rat 10"
  have c6: "is_finite c6" "is_float c6" "\<bar>valof c6 - 6\<bar> \<le> 0 * ?u"
    using is_float_ops(9) [of 6, where 'e = 'e and 'f = 'f]
    by (simp_all add: c6_def lit sval_def)
  have c15: "is_finite c15" "valof c15 = - 15"
    by (simp_all add: c15_def lit uminus_ieee_def sval_def)
  have c10: "is_finite c10" "valof c10 = 10"
    by (simp_all add: c10_def lit sval_def)
  define x1 where "x1 = c6 * t"
  have "is_finite (c6 * t) \<and> is_float (c6 * t)
      \<and> \<bar>valof (c6 * t) - 6 * valof t\<bar> \<le> (0 + 16) * ?u \<and> \<bar>6 * valof t\<bar> \<le> 15"
    using u0 by (intro float_step_mul [OF em c6 _ _ t]) simp_all
  then have x1: "is_finite x1" "\<bar>valof x1 - 6 * v\<bar> \<le> 16 * ?u"
    by (simp_all add: x1_def v_def)
  define x2 where "x2 = x1 + c15"
  have "is_finite (x1 + c15) \<and> is_float (x1 + c15)
      \<and> \<bar>valof (x1 + c15) - (6 * v + valof c15)\<bar> \<le> (16 + 16) * ?u"
    using u u0 tv(3,4) by (intro float_step_add [OF em x1 c15(1)]) (simp_all add: c15(2))
  then have x2: "is_finite x2" "is_float x2" "\<bar>valof x2 - (6 * v - 15)\<bar> \<le> 32 * ?u"
    by (simp_all add: x2_def c15(2))
  define x3 where "x3 = x2 * t"
  have "is_finite (x2 * t) \<and> is_float (x2 * t)
      \<and> \<bar>valof (x2 * t) - (6 * v - 15) * valof t\<bar> \<le> (32 + 16) * ?u
      \<and> \<bar>(6 * v - 15) * valof t\<bar> \<le> 15"
    using u u0 tv(3,4) by (intro float_step_mul [OF em x2 _ _ t]) simp_all
  then have x3: "is_finite x3" "\<bar>valof x3 - (6 * v - 15) * v\<bar> \<le> 48 * ?u"
    and b3: "\<bar>(6 * v - 15) * v\<bar> \<le> 15"
    by (simp_all add: x3_def v_def)
  have "(6 * v - 15) * v \<le> 0"
    using tv(3,4) by (intro mult_nonpos_nonneg) simp_all
  with b3 have b4: "\<bar>(6 * v - 15) * v + 10\<bar> \<le> 15" by simp
  define x4 where "x4 = x3 + c10"
  have "is_finite (x3 + c10) \<and> is_float (x3 + c10)
      \<and> \<bar>valof (x3 + c10) - ((6 * v - 15) * v + valof c10)\<bar> \<le> (48 + 16) * ?u"
    using u u0 b4 by (intro float_step_add [OF em x3 c10(1)]) (simp_all add: c10(2))
  then have x4: "is_finite x4" "is_float x4"
      "\<bar>valof x4 - ((6 * v - 15) * v + 10)\<bar> \<le> 64 * ?u"
    by (simp_all add: x4_def c10(2))
  define x5 where "x5 = x4 * t"
  have "is_finite (x4 * t) \<and> is_float (x4 * t)
      \<and> \<bar>valof (x4 * t) - ((6 * v - 15) * v + 10) * valof t\<bar> \<le> (64 + 16) * ?u
      \<and> \<bar>((6 * v - 15) * v + 10) * valof t\<bar> \<le> 15"
    using u u0 b4 by (intro float_step_mul [OF em x4 _ _ t]) simp_all
  then have x5: "is_finite x5" "is_float x5"
      "\<bar>valof x5 - ((6 * v - 15) * v + 10) * v\<bar> \<le> 80 * ?u"
    and b5: "\<bar>((6 * v - 15) * v + 10) * v\<bar> \<le> 15"
    by (simp_all add: x5_def v_def)
  define x6 where "x6 = x5 * t"
  have "is_finite (x5 * t) \<and> is_float (x5 * t)
      \<and> \<bar>valof (x5 * t) - ((6 * v - 15) * v + 10) * v * valof t\<bar> \<le> (80 + 16) * ?u
      \<and> \<bar>((6 * v - 15) * v + 10) * v * valof t\<bar> \<le> 15"
    using u u0 b5 by (intro float_step_mul [OF em x5 _ _ t]) simp_all
  then have x6: "is_finite x6" "is_float x6"
      "\<bar>valof x6 - ((6 * v - 15) * v + 10) * v * v\<bar> \<le> 96 * ?u"
    and b6: "\<bar>((6 * v - 15) * v + 10) * v * v\<bar> \<le> 15"
    by (simp_all add: x6_def v_def)
  have "is_finite (x6 * t) \<and> is_float (x6 * t)
      \<and> \<bar>valof (x6 * t) - ((6 * v - 15) * v + 10) * v * v * valof t\<bar> \<le> (96 + 16) * ?u
      \<and> \<bar>((6 * v - 15) * v + 10) * v * v * valof t\<bar> \<le> 15"
    using u u0 b6 by (intro float_step_mul [OF em x6 _ _ t]) simp_all
  then have "\<bar>valof (x6 * t) - ((6 * v - 15) * v + 10) * v * v * v\<bar> \<le> 112 * ?u"
    by (simp add: v_def)
  moreover have "((6 * v - 15) * v + 10) * v * v * v = 6 * v ^ 5 - 15 * v ^ 4 + 10 * v ^ 3"
    by (simp add: algebra_simps power2_eq_square power3_eq_cube power4_eq_xxxx numeral_eq_Suc)
  moreover have "quinticStep ieee_of_rat t = x6 * t"
    by (simp add: quinticStep_def x6_def x5_def x4_def x3_def x2_def x1_def c6_def c15_def c10_def
        float_minus_add)
  ultimately show ?thesis
    by (simp add: v_def)
qed

lemma steps_error_float32:
  fixes t :: float32
  assumes "is_float t" "is_finite t" "0 \<le> valof t" "valof t \<le> 1"
  shows "\<bar>valof (cubicStep ieee_of_rat t) - (- 2 * valof t ^ 3 + 3 * valof t ^ 2)\<bar>
           \<le> 64 / 2 ^ 24"
    and "\<bar>valof (quinticStep ieee_of_rat t)
           - (6 * valof t ^ 5 - 15 * valof t ^ 4 + 10 * valof t ^ 3)\<bar> \<le> 112 / 2 ^ 24"
proof -
  have em: "4 \<le> emax TYPE(float32)" and p: "7 \<le> precision TYPE(float32)"
    by (simp_all add: emax_def precision_def)
  have lit: "(ieee_of_rat 2 :: float32) = Finite False 2" "(ieee_of_rat 3 :: float32) = Finite False 3"
    "(ieee_of_rat 6 :: float32) = Finite False 6" "(ieee_of_rat 15 :: float32) = Finite False 15"
    "(ieee_of_rat 10 :: float32) = Finite False 10"
    by (simp_all add: float_eval)
  have u: "(2::real) powi (- precision TYPE(float32)) = 1 / 2 ^ 24"
    by (simp add: precision_def power_int_minus inverse_eq_divide)
  show "\<bar>valof (cubicStep ieee_of_rat t) - (- 2 * valof t ^ 3 + 3 * valof t ^ 2)\<bar>
           \<le> 64 / 2 ^ 24"
    using cubicStep_error [OF em p lit(1,2) assms(2,1,3,4)] unfolding u by simp
  show "\<bar>valof (quinticStep ieee_of_rat t)
           - (6 * valof t ^ 5 - 15 * valof t ^ 4 + 10 * valof t ^ 3)\<bar> \<le> 112 / 2 ^ 24"
    using quinticStep_error [OF em p lit(3,4,5) assms(2,1,3,4)] unfolding u by simp
qed

lemma steps_error_float64:
  fixes t :: float64
  assumes "is_float t" "is_finite t" "0 \<le> valof t" "valof t \<le> 1"
  shows "\<bar>valof (cubicStep ieee_of_rat t) - (- 2 * valof t ^ 3 + 3 * valof t ^ 2)\<bar>
           \<le> 64 / 2 ^ 53"
    and "\<bar>valof (quinticStep ieee_of_rat t)
           - (6 * valof t ^ 5 - 15 * valof t ^ 4 + 10 * valof t ^ 3)\<bar> \<le> 112 / 2 ^ 53"
proof -
  have em: "4 \<le> emax TYPE(float64)" and p: "7 \<le> precision TYPE(float64)"
    by (simp_all add: emax_def precision_def)
  have lit: "(ieee_of_rat 2 :: float64) = Finite False 2" "(ieee_of_rat 3 :: float64) = Finite False 3"
    "(ieee_of_rat 6 :: float64) = Finite False 6" "(ieee_of_rat 15 :: float64) = Finite False 15"
    "(ieee_of_rat 10 :: float64) = Finite False 10"
    by (simp_all add: float_eval)
  have u: "(2::real) powi (- precision TYPE(float64)) = 1 / 2 ^ 53"
    by (simp add: precision_def power_int_minus inverse_eq_divide)
  show "\<bar>valof (cubicStep ieee_of_rat t) - (- 2 * valof t ^ 3 + 3 * valof t ^ 2)\<bar>
           \<le> 64 / 2 ^ 53"
    using cubicStep_error [OF em p lit(1,2) assms(2,1,3,4)] unfolding u by simp
  show "\<bar>valof (quinticStep ieee_of_rat t)
           - (6 * valof t ^ 5 - 15 * valof t ^ 4 + 10 * valof t ^ 3)\<bar> \<le> 112 / 2 ^ 53"
    using quinticStep_error [OF em p lit(3,4,5) assms(2,1,3,4)] unfolding u by simp
qed

text \<open>The values at \<^verbatim>\<open>0.3f\<close> and \<^verbatim>\<open>0.2f\<close>, and the polynomial at \<^verbatim>\<open>0.3f\<close>.\<close>

lemma step_cex:
  "quinticStep ieee_of_rat (ieee_of_rat (3 / 10) :: float32) = Finite False (10944114 / 2 ^ 26)"
  "valof (ieee_of_rat (3 / 10) :: float32) = 5033165 / 2 ^ 24"
  "cubicStep ieee_of_rat (ieee_of_rat (1 / 5) :: float32) = Finite False (13958643 / 2 ^ 27)"
  by (simp_all add: quinticStep_def cubicStep_def ieee_ops float_eval)

lemma poly_val:
  "6 * (5033165 / 2 ^ 24) ^ 5 - 15 * (5033165 / 2 ^ 24) ^ 4 + 10 * (5033165 / 2 ^ 24) ^ 3
     = (108385261258188178921016100611404375 / 2 ^ 119 :: real)"
  by (simp add: power_divide)

lemma poly_round:
  "(round_to False (108385261258188178921016100611404375 / 2 ^ 119) :: float32)
     = Finite False (10944115 / 2 ^ 26)"
  by (simp add: float_eval)

text \<open>
  C4, as the code has it. In exact arithmetic the factored evaluation of the code is the
  polynomial of the documentation, for every \<open>t\<close>: \<open>cubicStep t = -2 t\<^sup>3 + 3 t\<^sup>2\<close> and
  \<open>quinticStep t = 6 t\<^sup>5 - 15 t\<^sup>4 + 10 t\<^sup>3\<close>. In floating-point arithmetic every operation
  of the evaluation rounds, and the result is the polynomial up to the accumulated error:
  for every finite \<open>t\<close> in \<open>[0, 1]\<close> the distance is at most \<open>64 \<sqdot> 2\<^sup>-\<^sup>2\<^sup>4\<close> for \<open>cubicStep\<close>
  and \<open>112 \<sqdot> 2\<^sup>-\<^sup>2\<^sup>4\<close> for \<open>quinticStep\<close> at \<^verbatim>\<open>float\<close>, and the same with \<open>2\<^sup>-\<^sup>5\<^sup>3\<close> at
  \<^verbatim>\<open>double\<close>.
\<close>

theorem step_polynomials:
  fixes x :: "'a::field_char_0" and t :: float32 and d :: float64
  shows "cubicStep of_rat x = - 2 * x ^ 3 + 3 * x ^ 2
     \<and> quinticStep of_rat x = 6 * x ^ 5 - 15 * x ^ 4 + 10 * x ^ 3
     \<and> (is_float t \<and> is_finite t \<and> 0 \<le> valof t \<and> valof t \<le> 1 \<longrightarrow>
           \<bar>valof (cubicStep ieee_of_rat t) - (- 2 * valof t ^ 3 + 3 * valof t ^ 2)\<bar>
             \<le> 64 / 2 ^ 24
         \<and> \<bar>valof (quinticStep ieee_of_rat t)
              - (6 * valof t ^ 5 - 15 * valof t ^ 4 + 10 * valof t ^ 3)\<bar> \<le> 112 / 2 ^ 24)
     \<and> (is_float d \<and> is_finite d \<and> 0 \<le> valof d \<and> valof d \<le> 1 \<longrightarrow>
           \<bar>valof (cubicStep ieee_of_rat d) - (- 2 * valof d ^ 3 + 3 * valof d ^ 2)\<bar>
             \<le> 64 / 2 ^ 53
         \<and> \<bar>valof (quinticStep ieee_of_rat d)
              - (6 * valof d ^ 5 - 15 * valof d ^ 4 + 10 * valof d ^ 3)\<bar> \<le> 112 / 2 ^ 53)"
proof -
  have 1: "cubicStep of_rat x = - 2 * x ^ 3 + 3 * x ^ 2"
    "quinticStep of_rat x = 6 * x ^ 5 - 15 * x ^ 4 + 10 * x ^ 3"
    by (simp_all add: cubicStep_def quinticStep_def algebra_simps power2_eq_square
        power3_eq_cube power4_eq_xxxx numeral_eq_Suc)
  from 1 steps_error_float32 [of t] steps_error_float64 [of d] show ?thesis
    by blast
qed

text \<open>At \<^verbatim>\<open>0.3f\<close> and at \<^verbatim>\<open>0.3\<close>.\<close>

theorem step_polynomials_witness:
  "is_float (ieee_of_rat (3 / 10) :: float32) \<and> is_finite (ieee_of_rat (3 / 10) :: float32)
   \<and> 0 \<le> valof (ieee_of_rat (3 / 10) :: float32) \<and> valof (ieee_of_rat (3 / 10) :: float32) \<le> 1
   \<and> \<bar>valof (cubicStep ieee_of_rat (ieee_of_rat (3 / 10) :: float32))
        - (- 2 * valof (ieee_of_rat (3 / 10) :: float32) ^ 3
           + 3 * valof (ieee_of_rat (3 / 10) :: float32) ^ 2)\<bar> \<le> 64 / 2 ^ 24
   \<and> \<bar>valof (quinticStep ieee_of_rat (ieee_of_rat (3 / 10) :: float32))
        - (6 * valof (ieee_of_rat (3 / 10) :: float32) ^ 5
           - 15 * valof (ieee_of_rat (3 / 10) :: float32) ^ 4
           + 10 * valof (ieee_of_rat (3 / 10) :: float32) ^ 3)\<bar> \<le> 112 / 2 ^ 24
   \<and> is_float (ieee_of_rat (3 / 10) :: float64) \<and> is_finite (ieee_of_rat (3 / 10) :: float64)
   \<and> 0 \<le> valof (ieee_of_rat (3 / 10) :: float64) \<and> valof (ieee_of_rat (3 / 10) :: float64) \<le> 1
   \<and> \<bar>valof (cubicStep ieee_of_rat (ieee_of_rat (3 / 10) :: float64))
        - (- 2 * valof (ieee_of_rat (3 / 10) :: float64) ^ 3
           + 3 * valof (ieee_of_rat (3 / 10) :: float64) ^ 2)\<bar> \<le> 64 / 2 ^ 53
   \<and> \<bar>valof (quinticStep ieee_of_rat (ieee_of_rat (3 / 10) :: float64))
        - (6 * valof (ieee_of_rat (3 / 10) :: float64) ^ 5
           - 15 * valof (ieee_of_rat (3 / 10) :: float64) ^ 4
           + 10 * valof (ieee_of_rat (3 / 10) :: float64) ^ 3)\<bar> \<le> 112 / 2 ^ 53"
proof -
  let ?t = "ieee_of_rat (3 / 10) :: float32" and ?d = "ieee_of_rat (3 / 10) :: float64"
  have t: "?t = Finite False (5033165 / 2 ^ 24)"
    by (simp add: float_eval)
  have d: "?d = Finite False (5404319552844595 / 2 ^ 54)"
    by (simp add: float_eval)
  have h: "is_float ?t \<and> is_finite ?t \<and> 0 \<le> valof ?t \<and> valof ?t \<le> 1"
    unfolding t by (simp add: float_eval)
  have h': "is_float ?d \<and> is_finite ?d \<and> 0 \<le> valof ?d \<and> valof ?d \<le> 1"
    unfolding d by (simp add: float_eval)
  from h h' step_polynomials [where 'a = real and t = ?t and d = ?d] show ?thesis
    by blast
qed

text \<open>
  The claim as the specification has it, an equality for every \<open>t\<close>, fails in the
  arithmetic of the code: at \<^verbatim>\<open>0.3f\<close> the value of \<open>quinticStep\<close> is \<open>10944114 / 2\<^sup>2\<^sup>6\<close>, which
  is neither the polynomial at that number nor the \<^verbatim>\<open>float\<close> nearest to it,
  \<open>10944115 / 2\<^sup>2\<^sup>6\<close>; at \<^verbatim>\<open>0.2f\<close> the value of \<open>cubicStep\<close> is not the polynomial either.
\<close>

theorem step_polynomials_counterexample:
  "valof (ieee_of_rat (3 / 10) :: float32) = 5033165 / 2 ^ 24
   \<and> quinticStep ieee_of_rat (ieee_of_rat (3 / 10) :: float32)
       = Finite False (10944114 / 2 ^ 26)
   \<and> valof (quinticStep ieee_of_rat (ieee_of_rat (3 / 10) :: float32))
       \<noteq> 6 * (5033165 / 2 ^ 24) ^ 5 - 15 * (5033165 / 2 ^ 24) ^ 4 + 10 * (5033165 / 2 ^ 24) ^ 3
   \<and> (round_to False (6 * (5033165 / 2 ^ 24) ^ 5 - 15 * (5033165 / 2 ^ 24) ^ 4
         + 10 * (5033165 / 2 ^ 24) ^ 3) :: float32) = Finite False (10944115 / 2 ^ 26)
   \<and> valof (ieee_of_rat (1 / 5) :: float32) = 13421773 / 2 ^ 26
   \<and> valof (cubicStep ieee_of_rat (ieee_of_rat (1 / 5) :: float32))
       \<noteq> - 2 * (13421773 / 2 ^ 26) ^ 3 + 3 * (13421773 / 2 ^ 26) ^ 2"
proof -
  have 1: "valof (quinticStep ieee_of_rat (ieee_of_rat (3 / 10) :: float32))
       \<noteq> 6 * (5033165 / 2 ^ 24) ^ 5 - 15 * (5033165 / 2 ^ 24) ^ 4 + 10 * (5033165 / 2 ^ 24) ^ 3"
    unfolding step_cex(1) poly_val by (simp add: sval_def)
  have 2: "(round_to False (6 * (5033165 / 2 ^ 24) ^ 5 - 15 * (5033165 / 2 ^ 24) ^ 4
         + 10 * (5033165 / 2 ^ 24) ^ 3) :: float32) = Finite False (10944115 / 2 ^ 26)"
    unfolding poly_val by (rule poly_round)
  have 3: "valof (ieee_of_rat (1 / 5) :: float32) = 13421773 / 2 ^ 26"
    by (simp add: float_eval)
  have 4: "valof (cubicStep ieee_of_rat (ieee_of_rat (1 / 5) :: float32))
       \<noteq> - 2 * (13421773 / 2 ^ 26) ^ 3 + 3 * (13421773 / 2 ^ 26) ^ 2"
    unfolding step_cex(3) by (simp add: sval_def power_divide)
  from 1 2 3 4 step_cex(1,2) show ?thesis
    by blast
qed

lemma steps_exact:
  "linearStep (0 :: 'a::field_char_0) = 0" "linearStep (1 :: 'a) = 1"
  "cubicStep of_rat (0 :: 'a) = 0" "cubicStep of_rat (1 :: 'a) = 1"
  "quinticStep of_rat (0 :: 'a) = 0" "quinticStep of_rat (1 :: 'a) = 1"
  by (simp_all add: linearStep_def cubicStep_def quinticStep_def)

lemma steps_float32:
  "cubicStep ieee_of_rat (0 :: float32) = 0" "cubicStep ieee_of_rat (1 :: float32) = 1"
  "quinticStep ieee_of_rat (0 :: float32) = 0" "quinticStep ieee_of_rat (1 :: float32) = 1"
  by (simp_all add: cubicStep_def quinticStep_def ieee_ops float_eval)

lemma steps_float64:
  "cubicStep ieee_of_rat (0 :: float64) = 0" "cubicStep ieee_of_rat (1 :: float64) = 1"
  "quinticStep ieee_of_rat (0 :: float64) = 0" "quinticStep ieee_of_rat (1 :: float64) = 1"
  by (simp_all add: cubicStep_def quinticStep_def ieee_ops float_eval)

lemma one_minus_cos_le: "1 - cos (d::real) \<le> d\<^sup>2 / 2"
proof -
  have "1 - cos d = 2 * (sin (d / 2))\<^sup>2"
    using cos_double_sin [of "d / 2"] by simp
  also have "(sin (d / 2))\<^sup>2 \<le> (d / 2)\<^sup>2"
    using abs_sin_x_le_abs_x [of "d / 2"] by (simp only: abs_le_square_iff)
  finally show ?thesis by (simp add: power_divide)
qed

text \<open>
  With the cosine of analysis for \<^verbatim>\<open>std::cos\<close>, \<open>cosineStep 1\<close> is not exactly 1, since
  the constant of the code is not exactly \<open>\<pi>\<close>.
\<close>

lemma cosineStep_real:
  "cosineStep of_rat cos (0::real) = 0" "\<bar>cosineStep of_rat cos (1::real) - 1\<bar> \<le> 1 / 10 ^ 8"
proof -
  show "cosineStep of_rat cos (0::real) = 0"
    by (simp add: cosineStep_def)
  define d :: real where "d = gf_pi of_rat - pi"
  have d: "\<bar>d\<bar> < 12 / 10 ^ 5" using gf_pi_real by (simp add: d_def)
  have "cos (gf_pi of_rat) = cos (d + pi)" by (simp add: d_def)
  also have "\<dots> = - cos d" by simp
  finally have c: "cos (gf_pi of_rat :: real) = - cos d" .
  have "cosineStep of_rat cos (1::real) - 1 = - ((1 - cos d) / 2)"
    by (simp add: cosineStep_def c of_rat_divide field_simps)
  moreover have "0 \<le> 1 - cos d" by simp
  moreover have "1 - cos d \<le> d\<^sup>2 / 2" by (rule one_minus_cos_le)
  moreover have "\<bar>d\<bar>\<^sup>2 < (12 / 10 ^ 5)\<^sup>2"
    using d by (intro power_strict_mono) simp_all
  then have "d\<^sup>2 < (12 / 10 ^ 5)\<^sup>2"
    by simp
  ultimately show "\<bar>cosineStep of_rat cos (1::real) - 1\<bar> \<le> 1 / 10 ^ 8"
    by (simp add: power_divide)
qed

text \<open>The same at \<^verbatim>\<open>float\<close>, where both ends are exact.\<close>

lemma round_to_one_sign: "(round_to s 1 :: ('e::len, 'f::len) ieee) = Finite s 1"
  using round_to_one [where 'e = 'e and 'f = 'f] by (simp add: round_to_def Let_def split: if_splits)

lemma round_to_below_one_float32:
  fixes q :: real
  assumes "1 - 1 / 10 ^ 8 \<le> q" "q \<le> 1"
  shows "(round_to s q :: float32) = Finite s 1"
proof (cases "q = 1")
  case True
  then show ?thesis by (simp add: round_to_one_sign)
next
  case False
  with assms have q: "q < 1" "0 < q" by simp_all
  have "1 / q \<le> 2" "1 < 1 / q" using assms q by (simp_all add: field_simps)
  then have "\<lceil>1 / q\<rceil> = 2" by (intro ceiling_unique) simp_all
  then have l: "ilog2 q = - 1" using q by (simp add: ilog2_def)
  have "16777215 \<le> q * 16777216" "q * 16777216 < 16777215 + 1" using assms q by simp_all
  then have f: "\<lfloor>q * 16777216\<rfloor> = 16777215" by (intro floor_unique) simp_all
  have "1 / 2 < q * 16777216 - 16777215" using assms by simp
  then have r: "round_even (q * 16777216) = 16777216"
    by (simp add: round_even_def f Let_def)
  from q show ?thesis
    by (simp add: round_to_def l precision_def emax_def Let_def r)
qed

lemma cos_gf_pi_float32:
  "cos (13176795 / 4194304 :: real) < 0" "1 - 1 / 10 ^ 8 \<le> \<bar>cos (13176795 / 4194304 :: real)\<bar>"
  "\<bar>cos (13176795 / 4194304 :: real)\<bar> \<le> 1"
proof -
  define d :: real where "d = 13176795 / 4194304 - pi"
  have d: "\<bar>d\<bar> < 12 / 10 ^ 5"
    using pi_lower pi_upper unfolding d_def abs_less_iff by (simp add: field_simps)
  have "cos (13176795 / 4194304 :: real) = cos (d + pi)" by (simp add: d_def)
  also have "\<dots> = - cos d" by simp
  finally have c: "cos (13176795 / 4194304 :: real) = - cos d" .
  have "\<bar>d\<bar>\<^sup>2 < (12 / 10 ^ 5)\<^sup>2"
    using d by (intro power_strict_mono) simp_all
  then have "d\<^sup>2 < (12 / 10 ^ 5)\<^sup>2" by simp
  with one_minus_cos_le [of d] have lo: "1 - 1 / 10 ^ 8 \<le> cos d"
    by (simp add: power_divide)
  then show "cos (13176795 / 4194304 :: real) < 0" unfolding c by simp
  from lo show "1 - 1 / 10 ^ 8 \<le> \<bar>cos (13176795 / 4194304 :: real)\<bar>" unfolding c by simp
  show "\<bar>cos (13176795 / 4194304 :: real)\<bar> \<le> 1" by simp
qed

lemma float_cos_values:
  "float_cos (0 :: float32) = 1" "float_cos (gf_pi ieee_of_rat :: float32) = - 1"
proof -
  show "float_cos (0 :: float32) = 1"
    by (simp add: float_cos_def ieee_ops round_to_one)
  show "float_cos (gf_pi ieee_of_rat :: float32) = - 1"
    using cos_gf_pi_float32
    by (simp add: float_cos_def gf_pi_float32 ieee_ops sval_def round_to_below_one_float32)
qed

lemma cosineStep_float32:
  "cosineStep ieee_of_rat float_cos (0 :: float32) = 0"
  "cosineStep ieee_of_rat float_cos (1 :: float32) = 1"
proof -
  have p0: "gf_pi ieee_of_rat * (0 :: float32) = 0"
    by (simp add: gf_pi_float32 ieee_ops round_to_def)
  have p1: "gf_pi ieee_of_rat * (1 :: float32) = gf_pi ieee_of_rat"
    unfolding gf_pi_float32 by (simp add: ieee_ops float_eval)
  show "cosineStep ieee_of_rat float_cos (0 :: float32) = 0"
    unfolding cosineStep_def p0 float_cos_values by (simp add: ieee_ops float_eval)
  show "cosineStep ieee_of_rat float_cos (1 :: float32) = 1"
    unfolding cosineStep_def p1 float_cos_values by (simp add: ieee_ops float_eval)
qed

text \<open>
  Only these two values of the cosine are used: the same holds for every function in the
  place of \<^verbatim>\<open>std::cos\<close> that has them.
\<close>

lemma cosineStep_float32_any:
  fixes std_cos :: "float32 \<Rightarrow> float32"
  assumes "std_cos 0 = 1" "std_cos (gf_pi ieee_of_rat) = - 1"
  shows "cosineStep ieee_of_rat std_cos 0 = 0" "cosineStep ieee_of_rat std_cos 1 = 1"
proof -
  have p0: "gf_pi ieee_of_rat * (0 :: float32) = 0"
    by (simp add: gf_pi_float32 ieee_ops round_to_def)
  have p1: "gf_pi ieee_of_rat * (1 :: float32) = gf_pi ieee_of_rat"
    unfolding gf_pi_float32 by (simp add: ieee_ops float_eval)
  show "cosineStep ieee_of_rat std_cos 0 = 0"
    unfolding cosineStep_def p0 assms by (simp add: ieee_ops float_eval)
  show "cosineStep ieee_of_rat std_cos 1 = 1"
    unfolding cosineStep_def p1 assms by (simp add: ieee_ops float_eval)
qed

text \<open>
  C3: each step function maps 0 to 0 and 1 to 1. For the linear, cubic and quintic steps
  this is exact, in exact arithmetic and for \<^verbatim>\<open>float\<close> and \<^verbatim>\<open>double\<close>. For the cosine step
  over the real numbers \<open>cosineStep 0 = 0\<close> exactly, and \<open>cosineStep 1\<close> is within \<open>10\<^sup>-\<^sup>8\<close>
  of 1; for \<^verbatim>\<open>float\<close> with a correctly rounded cosine both ends are exact.
\<close>

theorem step_endpoints:
  "linearStep (0 :: 'a::field_char_0) = 0 \<and> linearStep (1 :: 'a) = 1
   \<and> cubicStep of_rat (0 :: 'a) = 0 \<and> cubicStep of_rat (1 :: 'a) = 1
   \<and> quinticStep of_rat (0 :: 'a) = 0 \<and> quinticStep of_rat (1 :: 'a) = 1
   \<and> linearStep (0 :: float32) = 0 \<and> linearStep (1 :: float32) = 1
   \<and> cubicStep ieee_of_rat (0 :: float32) = 0 \<and> cubicStep ieee_of_rat (1 :: float32) = 1
   \<and> quinticStep ieee_of_rat (0 :: float32) = 0 \<and> quinticStep ieee_of_rat (1 :: float32) = 1
   \<and> cubicStep ieee_of_rat (0 :: float64) = 0 \<and> cubicStep ieee_of_rat (1 :: float64) = 1
   \<and> quinticStep ieee_of_rat (0 :: float64) = 0 \<and> quinticStep ieee_of_rat (1 :: float64) = 1
   \<and> cosineStep of_rat cos (0::real) = 0 \<and> \<bar>cosineStep of_rat cos (1::real) - 1\<bar> \<le> 1 / 10 ^ 8
   \<and> cosineStep ieee_of_rat float_cos (0 :: float32) = 0
   \<and> cosineStep ieee_of_rat float_cos (1 :: float32) = 1"
  using steps_exact [where 'a = 'a] steps_float32 steps_float64 cosineStep_real
    cosineStep_float32
  by (simp add: linearStep_def)

section \<open>Linear interpolation\<close>

lemma float_one_minus:
  "(1 :: ('e::len, 'f::len) ieee) - 0 = 1" "(1 :: ('e, 'f) ieee) - 1 = 0"
  by (simp_all add: ieee_ops sval_def round_to_one)

lemma lerp_zero_float:
  fixes x y :: "('e::len, 'f::len) ieee"
  assumes "x \<noteq> NaN" "is_float x" "is_finite y"
  shows "float_eq (lerp id id id x y 0) x"
proof -
  obtain s' w where y: "y = Finite s' w" using assms(3) by (cases y) simp_all
  have y0: "0 * y = Finite s' 0" by (simp add: y ieee_ops round_to_def)
  show ?thesis
  proof (cases x)
    case NaN
    with assms(1) show ?thesis by simp
  next
    case (Infinity s)
    then have "1 * x = x" by (simp add: ieee_ops)
    then show ?thesis
      by (simp add: lerp_def float_one_minus y0) (simp add: Infinity ieee_ops)
  next
    case (Finite s v)
    with assms(2) have v: "0 \<le> v" and r: "(round_to s v :: ('e, 'f) ieee) = Finite s v"
      by simp_all
    have "1 * x = x" by (simp add: Finite ieee_ops r)
    then have "lerp id id id x y 0 = x + Finite s' 0"
      by (simp add: lerp_def float_one_minus y0)
    also have "float_eq \<dots> x"
      using v r by (auto simp: Finite ieee_ops sval_def Let_def)
    finally show ?thesis .
  qed
qed

lemma lerp_one_float:
  fixes x y :: "('e::len, 'f::len) ieee"
  assumes "is_finite x" "y \<noteq> NaN" "is_float y"
  shows "float_eq (lerp id id id x y 1) y"
proof -
  obtain s v where x: "x = Finite s v" using assms(1) by (cases x) simp_all
  have x0: "0 * x = Finite s 0" by (simp add: x ieee_ops round_to_def)
  show ?thesis
  proof (cases y)
    case NaN
    with assms(2) show ?thesis by simp
  next
    case (Infinity s')
    then have "1 * y = y" by (simp add: ieee_ops)
    then show ?thesis
      by (simp add: lerp_def float_one_minus x0) (simp add: Infinity ieee_ops)
  next
    case (Finite s' w)
    with assms(3) have w: "0 \<le> w" and r: "(round_to s' w :: ('e, 'f) ieee) = Finite s' w"
      by simp_all
    have "1 * y = y" by (simp add: Finite ieee_ops r)
    then have "lerp id id id x y 1 = Finite s 0 + y"
      by (simp add: lerp_def float_one_minus x0)
    also have "float_eq \<dots> y"
      using w r by (auto simp: Finite ieee_ops sval_def Let_def)
    finally show ?thesis .
  qed
qed

lemma lerp_infinity:
  fixes x y :: "('e::len, 'f::len) ieee"
  shows "lerp id id id x (Infinity s) 0 = NaN" "lerp id id id (Infinity s) y 1 = NaN"
  by (simp_all add: lerp_def float_one_minus) (simp_all add: ieee_ops)

lemma lerp_int32:
  assumes "is_int32 (Int32 a)" "is_int32 (Int32 b)"
  shows "lerp id id id (Int32 a) (Int32 b) 0 = Int32 a"
    and "lerp id id id (Int32 a) (Int32 b) 1 = Int32 b"
  using assms by (simp_all add: lerp_def int32_ops checked_def)

text \<open>
  For \<^verbatim>\<open>lerp<int, float>\<close> at parameter 0 or 1 the result is the operand, converted to
  \<^verbatim>\<open>float\<close> and back.
\<close>

lemma lerp_int32_float32:
  assumes "is_int32 (Int32 a)" "is_int32 (Int32 b)"
  shows "lerp id float_of_int32 int32_of_float (Int32 a) (Int32 b) (0 :: float32)
           = int32_of_float (float_of_int32 (Int32 a) :: float32)"
    and "lerp id float_of_int32 int32_of_float (Int32 a) (Int32 b) (1 :: float32)
           = int32_of_float (float_of_int32 (Int32 b) :: float32)"
proof -
  define x y :: float32 where "x = float_of_int32 (Int32 a)" and "y = float_of_int32 (Int32 b)"
  obtain v where a: "x = Finite (a < 0) v"
    using float_of_int32_finite [OF assms(1)] unfolding x_def by blast
  obtain w where b: "y = Finite (b < 0) w"
    using float_of_int32_finite [OF assms(2)] unfolding y_def by blast
  have fa: "is_float x" and fb: "is_float y"
    by (simp_all add: x_def y_def is_float_ops(9))
  have "int32_of_float ((1 - 0) * x + 0 * y) = int32_of_float (x + Finite (b < 0) 0)"
    unfolding float_one_minus float_one_times [OF fa] by (simp only: b float_zero_times)
  also have "\<dots> = int32_of_float x"
    unfolding float_add_zero(1) [OF fa a] by (cases "v = 0") (simp_all add: a checked_def)
  finally show "lerp id float_of_int32 int32_of_float (Int32 a) (Int32 b) (0 :: float32)
           = int32_of_float (float_of_int32 (Int32 a) :: float32)"
    by (simp only: lerp_def id_apply x_def y_def)
  have "int32_of_float ((1 - 1) * x + 1 * y) = int32_of_float (Finite (a < 0) 0 + y)"
    unfolding float_one_minus float_one_times [OF fb] by (simp only: a float_zero_times)
  also have "\<dots> = int32_of_float y"
    unfolding float_add_zero(2) [OF fb b] by (cases "w = 0") (simp_all add: b checked_def)
  finally show "lerp id float_of_int32 int32_of_float (Int32 a) (Int32 b) (1 :: float32)
           = int32_of_float (float_of_int32 (Int32 b) :: float32)"
    by (simp only: lerp_def id_apply x_def y_def)
qed

text \<open>
  C2, as the code has it: \<open>lerp a b t\<close> is \<open>(1 - t) * a + t * b\<close>, computed in the common type
  of \<^verbatim>\<open>T\<close> and \<^verbatim>\<open>U\<close> and converted to \<^verbatim>\<open>T\<close>, for every \<open>t\<close>, with no clamping (\<open>t = 2\<close>
  extrapolates). In exact arithmetic \<open>lerp a b 0 = a\<close> and \<open>lerp a b 1 = b\<close> for all \<open>a\<close> and
  \<open>b\<close>, and so it is for \<^verbatim>\<open>int\<close> values with an \<^verbatim>\<open>int\<close> parameter. When \<^verbatim>\<open>T\<close> and \<^verbatim>\<open>U\<close> are
  the same floating-point type, \<open>lerp a b 0 == a\<close> for every finite \<open>b\<close> and every \<open>a\<close> that
  is not a NaN, and \<open>lerp a b 1 == b\<close> for every finite \<open>a\<close> and every \<open>b\<close> that is not a NaN;
  when the operand with weight zero is an infinity, the result is a NaN. For
  \<^verbatim>\<open>lerp<int, float>\<close> the result at 0 or 1 is the operand converted to \<^verbatim>\<open>float\<close> and back,
  which is the operand when its magnitude is at most \<open>2\<^sup>2\<^sup>4\<close>.
\<close>

theorem lerp_endpoints:
  fixes a b t :: "'a::comm_ring_1" and x y u :: "('e::len, 'f::len) ieee" and m n :: int
    and l r :: int32 and w :: float32
  shows "lerp id id id a b t = (1 - t) * a + t * b
     \<and> lerp id id id a b 0 = a \<and> lerp id id id a b 1 = b
     \<and> lerp id id id (0 :: int) 10 2 = 20
     \<and> lerp id id id x y u = (1 - u) * x + u * y
     \<and> (x \<noteq> NaN \<and> is_float x \<and> is_finite y \<longrightarrow> float_eq (lerp id id id x y 0) x)
     \<and> (is_finite x \<and> y \<noteq> NaN \<and> is_float y \<longrightarrow> float_eq (lerp id id id x y 1) y)
     \<and> lerp id id id x (Infinity s) 0 = NaN \<and> lerp id id id (Infinity s) y 1 = NaN
     \<and> lerp id float_of_int32 int32_of_float l r w
         = int32_of_float ((1 - w) * float_of_int32 l + w * float_of_int32 r)
     \<and> (is_int32 (Int32 m) \<and> is_int32 (Int32 n) \<longrightarrow>
           lerp id id id (Int32 m) (Int32 n) 0 = Int32 m
         \<and> lerp id id id (Int32 m) (Int32 n) 1 = Int32 n
         \<and> lerp id float_of_int32 int32_of_float (Int32 m) (Int32 n) (0 :: float32)
             = int32_of_float (float_of_int32 (Int32 m) :: float32)
         \<and> lerp id float_of_int32 int32_of_float (Int32 m) (Int32 n) (1 :: float32)
             = int32_of_float (float_of_int32 (Int32 n) :: float32))
     \<and> (\<bar>m\<bar> \<le> 16777216 \<longrightarrow>
           int32_of_float (float_of_int32 (Int32 m) :: float32) = Int32 m)"
proof -
  have 1: "lerp id id id a b t = (1 - t) * a + t * b" "lerp id id id a b 0 = a"
    "lerp id id id a b 1 = b" "lerp id id id (0 :: int) 10 2 = 20"
    "lerp id id id x y u = (1 - u) * x + u * y"
    "lerp id float_of_int32 int32_of_float l r w
       = int32_of_float ((1 - w) * float_of_int32 l + w * float_of_int32 r)"
    by (simp_all add: lerp_def)
  from 1 lerp_zero_float [of x y] lerp_one_float [of x y] lerp_infinity(1) [of x s] lerp_infinity(2) [of s y]
    lerp_int32 [of m n] lerp_int32_float32 [of m n] float_of_int32_exact(2) [of m]
  show ?thesis
    by blast
qed

text \<open>
  Between \<^verbatim>\<open>0.1f\<close> and \<^verbatim>\<open>3.0f\<close>, and between the \<^verbatim>\<open>int\<close> values \<open>-7\<close> and \<open>100\<close>.
\<close>

theorem lerp_endpoints_witness:
  "(ieee_of_rat (1 / 10) :: float32) \<noteq> NaN \<and> is_float (ieee_of_rat (1 / 10) :: float32)
   \<and> is_finite (ieee_of_rat (1 / 10) :: float32)
   \<and> (ieee_of_rat 3 :: float32) \<noteq> NaN \<and> is_float (ieee_of_rat 3 :: float32)
   \<and> is_finite (ieee_of_rat 3 :: float32)
   \<and> float_eq (lerp id id id (ieee_of_rat (1 / 10)) (ieee_of_rat 3) 0)
        (ieee_of_rat (1 / 10) :: float32)
   \<and> float_eq (lerp id id id (ieee_of_rat (1 / 10)) (ieee_of_rat 3) 1) (ieee_of_rat 3 :: float32)
   \<and> is_int32 (Int32 (- 7)) \<and> is_int32 (Int32 100) \<and> \<bar>- 7 :: int\<bar> \<le> 16777216
   \<and> lerp id id id (Int32 (- 7)) (Int32 100) 0 = Int32 (- 7)
   \<and> lerp id id id (Int32 (- 7)) (Int32 100) 1 = Int32 100
   \<and> lerp id float_of_int32 int32_of_float (Int32 (- 7)) (Int32 100) (0 :: float32)
       = int32_of_float (float_of_int32 (Int32 (- 7)) :: float32)
   \<and> int32_of_float (float_of_int32 (Int32 (- 7)) :: float32) = Int32 (- 7)"
proof -
  let ?x = "ieee_of_rat (1 / 10) :: float32" and ?y = "ieee_of_rat 3 :: float32"
  have x: "?x = Finite False (13421773 / 134217728)"
    by (simp add: float_eval)
  have y: "?y = Finite False 3"
    by (simp add: float_eval)
  have h: "?x \<noteq> NaN \<and> is_float ?x \<and> is_finite ?x \<and> ?y \<noteq> NaN \<and> is_float ?y \<and> is_finite ?y"
    unfolding x y by (simp add: float_eval)
  have h': "is_int32 (Int32 (- 7)) \<and> is_int32 (Int32 100) \<and> \<bar>- 7 :: int\<bar> \<le> 16777216"
    by simp
  from h h' lerp_endpoints [where x = ?x and y = ?y and 'a = int and m = "- 7" and n = 100]
  show ?thesis
    by blast
qed

text \<open>
  The claim as the specification has it, for all values, fails when the other operand is
  an infinity: \<open>0 * \<infinity>\<close> is a NaN, and so is the sum. It also fails for \<^verbatim>\<open>lerp<int, float>\<close>
  at an \<^verbatim>\<open>int\<close> that is not a \<^verbatim>\<open>float\<close>: \<open>16777217\<close> comes back as \<open>16777216\<close>, and for
  \<open>2147483647\<close> the conversion of the result to \<^verbatim>\<open>int\<close> is undefined.
\<close>

theorem lerp_endpoints_counterexample:
  "lerp id id id (1 :: float32) (Infinity False) 0 = NaN
   \<and> \<not> float_eq (lerp id id id (1 :: float32) (Infinity False) 0) 1
   \<and> lerp id id id (Infinity False) (1 :: float32) 1 = NaN
   \<and> \<not> float_eq (lerp id id id (Infinity False) (1 :: float32) 1) 1
   \<and> is_int32 (Int32 16777217) \<and> is_int32 (Int32 0) \<and> is_int32 (Int32 2147483647)
   \<and> lerp id float_of_int32 int32_of_float (Int32 16777217) (Int32 0) (0 :: float32)
       = Int32 16777216
   \<and> lerp id float_of_int32 int32_of_float (Int32 0) (Int32 2147483647) (1 :: float32)
       = Undefined"
  by (simp add: lerp_def ieee_ops float_eval checked_def)

section \<open>Clamping\<close>

lemma clamp_float:
  fixes x l h :: "('e::len, 'f::len) ieee"
  assumes "l \<le> h"
  shows "(x < l \<longrightarrow> clamp x l h = l) \<and> (x > h \<longrightarrow> clamp x l h = h)
     \<and> (\<not> x < l \<and> \<not> x > h \<longrightarrow> clamp x l h = x)
     \<and> (x \<noteq> NaN \<longrightarrow> l \<le> clamp x l h \<and> clamp x l h \<le> h)"
proof -
  from assms have lh: "float_le l h" by (simp add: ieee_ops)
  then have nn: "l \<noteq> NaN" "h \<noteq> NaN" using float_le_not_nan by blast+
  show ?thesis
    using lh nn float_lt_le_trans [of h x l] float_not_lt_le [of x l] float_not_lt_le [of h x]
      float_le_refl [of l] float_le_refl [of h]
    by (auto simp: clamp_def ieee_ops)
qed

text \<open>
  C5, as the code has it: for \<open>lo \<le> hi\<close>, \<open>clamp val lo hi\<close> is \<open>lo\<close> when \<open>val < lo\<close>,
  \<open>hi\<close> when \<open>val > hi\<close> and \<open>val\<close> otherwise. The result lies in \<open>[lo, hi]\<close> for every
  \<open>val\<close> of a totally ordered type, and for every floating-point \<open>val\<close> that is not a NaN.
\<close>

theorem clamp_range:
  fixes val lo hi :: "'a::linorder" and x l h :: "('e::len, 'f::len) ieee"
  shows "(lo \<le> hi \<longrightarrow>
            (val < lo \<longrightarrow> clamp val lo hi = lo) \<and> (val > hi \<longrightarrow> clamp val lo hi = hi)
          \<and> (\<not> val < lo \<and> \<not> val > hi \<longrightarrow> clamp val lo hi = val)
          \<and> lo \<le> clamp val lo hi \<and> clamp val lo hi \<le> hi)
    \<and> (l \<le> h \<longrightarrow>
            (x < l \<longrightarrow> clamp x l h = l) \<and> (x > h \<longrightarrow> clamp x l h = h)
          \<and> (\<not> x < l \<and> \<not> x > h \<longrightarrow> clamp x l h = x)
          \<and> (x \<noteq> NaN \<longrightarrow> l \<le> clamp x l h \<and> clamp x l h \<le> h))"
proof -
  have "lo \<le> hi \<longrightarrow>
            (val < lo \<longrightarrow> clamp val lo hi = lo) \<and> (val > hi \<longrightarrow> clamp val lo hi = hi)
          \<and> (\<not> val < lo \<and> \<not> val > hi \<longrightarrow> clamp val lo hi = val)
          \<and> lo \<le> clamp val lo hi \<and> clamp val lo hi \<le> hi"
    by (auto simp: clamp_def)
  with clamp_float [of l h x] show ?thesis by blast
qed

text \<open>
  An \<^verbatim>\<open>int\<close> above the interval and a \<^verbatim>\<open>float\<close> above the interval: \<open>clamp 15 0 10 = 10\<close>
  and \<open>clamp 1.5 0 1 = 1\<close>.
\<close>

theorem clamp_range_witness:
  "(0 :: int) \<le> 10 \<and> (15 :: int) > 10 \<and> clamp (15 :: int) 0 10 = 10
   \<and> (0 :: int) \<le> clamp 15 0 10 \<and> clamp (15 :: int) 0 10 \<le> 10
   \<and> (0 :: float32) \<le> 1 \<and> (ieee_of_rat (3 / 2) :: float32) > 1
   \<and> (ieee_of_rat (3 / 2) :: float32) \<noteq> NaN
   \<and> clamp (ieee_of_rat (3 / 2) :: float32) 0 1 = 1
   \<and> (0 :: float32) \<le> clamp (ieee_of_rat (3 / 2)) 0 1
   \<and> clamp (ieee_of_rat (3 / 2) :: float32) 0 1 \<le> 1"
proof -
  let ?x = "ieee_of_rat (3 / 2) :: float32"
  have h1: "(0 :: int) \<le> 10 \<and> (15 :: int) > 10"
    by simp
  have h2: "(0 :: float32) \<le> 1 \<and> ?x > 1 \<and> ?x \<noteq> NaN"
    by (simp add: ieee_ops float_eval)
  from h1 h2 clamp_range [of "0 :: int" 10 15 "0 :: float32" 1 ?x] show ?thesis
    by blast
qed

text \<open>
  The claim as the specification has it, for every \<open>val\<close>, fails at a NaN: both comparisons
  are false, the NaN is returned, and it is not in the interval.
\<close>

theorem clamp_nan_counterexample:
  "(0 :: float32) \<le> 1 \<and> clamp NaN 0 (1 :: float32) = NaN
   \<and> \<not> ((0 :: float32) \<le> clamp NaN 0 1 \<and> clamp NaN 0 1 \<le> (1 :: float32))"
  by (simp add: clamp_def ieee_ops sval_def)

section \<open>Absolute difference\<close>

lemma float_sub_finite:
  fixes x y :: "('e::len, 'f::len) ieee"
  assumes "x = Finite s v" "y = Finite s' w"
  shows "x - y = (if sval s v - sval s' w = 0 then Finite (s \<and> \<not> s') 0
                  else round_to (sval s v - sval s' w < 0) \<bar>sval s v - sval s' w\<bar>)"
    and "y - x = (if sval s v - sval s' w = 0 then Finite (s' \<and> \<not> s) 0
                  else round_to (0 < sval s v - sval s' w) \<bar>sval s v - sval s' w\<bar>)"
  by (simp_all add: assms ieee_ops Let_def abs_minus_commute)

lemma absdiff_finite:
  fixes x y :: "('e::len, 'f::len) ieee"
  assumes "x = Finite s v" "y = Finite s' w"
  shows "absdiff x y = (if 0 < sval s v - sval s' w then x - y else y - x)"
    and "absdiff y x = (if sval s v - sval s' w < 0 then y - x else x - y)"
  by (auto simp: absdiff_def assms ieee_ops)

lemma absdiff_float:
  fixes x y :: "('e::len, 'f::len) ieee"
  shows "(absdiff x y = NaN \<and> \<bar>x - y\<bar> = NaN) \<or> float_eq (absdiff x y) \<bar>x - y\<bar>"
proof (cases x)
  case NaN
  then show ?thesis by (simp add: absdiff_def ieee_ops)
next
  case (Infinity s)
  then show ?thesis by (cases y) (auto simp: absdiff_def ieee_ops)
next
  case x: (Finite s v)
  show ?thesis
  proof (cases y)
    case NaN
    then show ?thesis by (simp add: x absdiff_def ieee_ops)
  next
    case (Infinity s')
    then show ?thesis by (auto simp: x absdiff_def ieee_ops)
  next
    case y: (Finite s' w)
    have "float_eq (absdiff x y) \<bar>x - y\<bar>"
      unfolding absdiff_finite(1) [OF x y] float_sub_finite [OF x y]
      by (auto simp: abs_ieee_def float_abs_round_to float_eq_refl)
    then show ?thesis ..
  qed
qed

lemma absdiff_float_sym:
  fixes x y :: "('e::len, 'f::len) ieee"
  shows "(absdiff x y = NaN \<and> absdiff y x = NaN) \<or> float_eq (absdiff x y) (absdiff y x)"
proof (cases x)
  case NaN
  then show ?thesis by (simp add: absdiff_def ieee_ops)
next
  case (Infinity s)
  then show ?thesis by (cases y) (auto simp: absdiff_def ieee_ops)
next
  case x: (Finite s v)
  show ?thesis
  proof (cases y)
    case NaN
    then show ?thesis by (simp add: x absdiff_def ieee_ops)
  next
    case (Infinity s')
    then show ?thesis by (auto simp: x absdiff_def ieee_ops)
  next
    case y: (Finite s' w)
    have "float_eq (absdiff x y) (absdiff y x)"
      unfolding absdiff_finite [OF x y] float_sub_finite [OF x y]
      by (auto simp: float_eq_refl)
    then show ?thesis ..
  qed
qed

lemma absdiff_int32: "absdiff (Int32 a) (Int32 b) = checked \<bar>a - b\<bar>"
  by (auto simp: absdiff_def int32_ops)

lemma absdiff_int32_sym: "absdiff (a :: int32) b = absdiff b a"
  by (cases a; cases b) (auto simp: absdiff_def int32_ops)

text \<open>
  C6, as the code has it: \<open>absdiff a b\<close> is \<open>|a - b|\<close> and is symmetric in exact arithmetic.
  For an unsigned machine integer the value of the result is the distance of the two
  values, with no wrap-around, as in \<open>absdiff 3 10 = 7\<close> and \<open>absdiff 10 3 = 7\<close>. For two
  \<^verbatim>\<open>int\<close> the result is \<open>|a - b|\<close> when that is at most \<open>2\<^sup>3\<^sup>1 - 1\<close>; otherwise the subtraction
  overflows and the behaviour is undefined; the function is symmetric in both cases. For
  floating-point numbers the two sides are equal by \<^verbatim>\<open>==\<close>, or are both NaN.
\<close>

theorem absdiff_correct:
  fixes a b :: "'a::linordered_idom" and u v :: "'n::len word"
    and x y :: "('e::len, 'f::len) ieee" and m n :: int
  shows "absdiff a b = \<bar>a - b\<bar> \<and> absdiff a b = absdiff b a
     \<and> uint (absdiff u v) = \<bar>uint u - uint v\<bar> \<and> absdiff u v = absdiff v u
     \<and> absdiff (3 :: 32 word) 10 = 7 \<and> absdiff (10 :: 32 word) 3 = 7
     \<and> (\<bar>m - n\<bar> \<le> 2147483647 \<longrightarrow> absdiff (Int32 m) (Int32 n) = Int32 \<bar>m - n\<bar>)
     \<and> (2147483647 < \<bar>m - n\<bar> \<longrightarrow> absdiff (Int32 m) (Int32 n) = Undefined)
     \<and> absdiff (Int32 m) (Int32 n) = absdiff (Int32 n) (Int32 m)
     \<and> ((absdiff x y = NaN \<and> \<bar>x - y\<bar> = NaN) \<or> float_eq (absdiff x y) \<bar>x - y\<bar>)
     \<and> ((absdiff x y = NaN \<and> absdiff y x = NaN) \<or> float_eq (absdiff x y) (absdiff y x))"
proof -
  have 1: "absdiff a b = \<bar>a - b\<bar>" "absdiff a b = absdiff b a"
    by (auto simp: absdiff_def)
  have 2: "uint (absdiff u v) = \<bar>uint u - uint v\<bar>"
    by (auto simp: absdiff_def uint_sub_if' word_less_def word_le_def not_less)
  have 3: "absdiff u v = absdiff v u"
    by (auto simp: absdiff_def not_less)
  have 4: "absdiff (3 :: 32 word) 10 = 7" "absdiff (10 :: 32 word) 3 = 7"
    by (simp_all add: absdiff_def)
  have 5: "\<bar>m - n\<bar> \<le> 2147483647 \<longrightarrow> absdiff (Int32 m) (Int32 n) = Int32 \<bar>m - n\<bar>"
    "2147483647 < \<bar>m - n\<bar> \<longrightarrow> absdiff (Int32 m) (Int32 n) = Undefined"
    using abs_ge_zero [of "m - n"] by (auto simp: absdiff_int32 checked_def)
  from 1 2 3 4 5 absdiff_int32_sym [of "Int32 m" "Int32 n"]
    absdiff_float [of x y] absdiff_float_sym [of x y]
  show ?thesis
    by blast
qed

text \<open>
  Two \<^verbatim>\<open>int\<close> at distance 12, and two at distance \<open>2\<^sup>3\<^sup>1 + 1\<close>.
\<close>

theorem absdiff_correct_witness:
  "\<bar>- 5 - 7 :: int\<bar> \<le> 2147483647 \<and> absdiff (Int32 (- 5)) (Int32 7) = Int32 \<bar>- 5 - 7\<bar>
   \<and> 2147483647 < \<bar>2147483647 - (- 2) :: int\<bar>
   \<and> absdiff (Int32 2147483647) (Int32 (- 2)) = Undefined"
proof -
  have h: "\<bar>- 5 - 7 :: int\<bar> \<le> 2147483647" "2147483647 < \<bar>2147483647 - (- 2) :: int\<bar>"
    by simp_all
  from h absdiff_correct [where m = "- 5" and n = 7 and 'a = int and 'n = 32 and 'e = 8 and 'f = 23]
    absdiff_correct [where m = 2147483647 and n = "- 2" and 'a = int and 'n = 32 and 'e = 8
      and 'f = 23]
  show ?thesis
    by blast
qed

text \<open>
  The claim as the specification has it, for every pair of values, fails for \<^verbatim>\<open>int\<close>: the
  distance of \<open>-2\<^sup>3\<^sup>1\<close> and \<open>1\<close> is not an \<^verbatim>\<open>int\<close>, and \<open>1 - (-2\<^sup>3\<^sup>1)\<close> overflows.
\<close>

theorem absdiff_int_counterexample:
  "is_int32 (Int32 (- 2147483648)) \<and> is_int32 (Int32 1)
   \<and> absdiff (Int32 (- 2147483648)) (Int32 1) = Undefined
   \<and> absdiff (Int32 (- 2147483648)) (Int32 1) \<noteq> Int32 \<bar>- 2147483648 - 1\<bar>"
  by (simp add: absdiff_def int32_ops checked_def)

section \<open>Non-finite values and totality\<close>



lemma float_lt_infinity [simp]: "float_lt (Infinity False) x = False"
  by (cases x) simp_all

lemma float_lt_neg_infinity [simp]: "float_lt x (Infinity True) = False"
  by (cases x) simp_all










section \<open>System information\<close>

text \<open>
  C9: each of the four queries returns the answer of the platform at the moment of the
  call, unchanged, and makes exactly one call into SDL, the corresponding one; the state
  is otherwise left as it was, so nothing is kept from one call to the next.
\<close>

theorem systemInfo_delegates:
  "getPlatformName w = (platform w, w\<lparr>calls := calls w @ [GetPlatform]\<rparr>)
   \<and> getCpuCacheLineSize w = (cache_line_size w, w\<lparr>calls := calls w @ [GetCPUCacheLineSize]\<rparr>)
   \<and> getCpuCount w = (cpu_count w, w\<lparr>calls := calls w @ [GetCPUCount]\<rparr>)
   \<and> getSystemRamSize w = (system_ram w, w\<lparr>calls := calls w @ [GetSystemRAM]\<rparr>)
   \<and> fst (getCpuCount (snd (getCpuCount (w\<lparr>cpu_count := n\<rparr>)))) = n
   \<and> fst (getCpuCount (snd (getCpuCount w)\<lparr>cpu_count := n\<rparr>)) = n"
  by (simp add: getPlatformName_def getCpuCacheLineSize_def getCpuCount_def
      getSystemRamSize_def SDL_GetPlatform_def SDL_GetCPUCacheLineSize_def SDL_GetCPUCount_def
      SDL_GetSystemRAM_def)

end
